theory Spec2Isabelle
  imports Complex_Main
begin

section \<open>The network analyzer of pyrpl (src/pyrpl/network_analyzer.py)\<close>

text \<open>
  The class \<^verbatim>\<open>NetworkAnalyzer\<close> sweeps the frequency of an IQ demodulator and reads
  the demodulated response point by point. Python floats are modelled as \<open>real\<close>
  (rounding of floating-point arithmetic is outside the model), Python integers as
  \<open>int\<close> or \<open>nat\<close>, exceptions as values of the type \<open>error\<close>. An attribute that
  \<^verbatim>\<open>__init__\<close> does not create is an \<open>option\<close> field: reading it while it is
  \<open>None\<close> is Python's AttributeError. Every operation returns the object after the
  call next to its result, since an exception leaves the mutations made before it.
\<close>

subsection \<open>Exceptions\<close>

datatype error =
    AttributeError
  | NameError
  | IndexError
  | ZeroDivisionError
  | ValueError
  | NotReadyError
  | DeviceError

subsection \<open>The demodulator and the host, as the analyzer sees them\<close>

text \<open>
  The IQ module is not part of the file. Its registers are fields of \<open>iq_module\<close>;
  what the hardware makes of a written value, the samples it delivers and the time
  the host lets pass are parameters, collected in \<open>env\<close>. A bandwidth is written
  either as one number (\<^verbatim>\<open>iq.setup(bandwidth=self.rbw)\<close>) or as a list of filter
  cutoffs (the \<^verbatim>\<open>rbw\<close> setter). The points of the frequency axis come out of numpy
  and can be infinite or nan (\<open>np_float\<close>); the frequency register takes them as they
  are and reads back a number.
\<close>

datatype np_float = Finite real | PosInf | NegInf | NaN

datatype bandwidth_value = One real | Many "real list"

datatype stabilize_mode = Off | Target real

datatype reg_write =
    SetFrequency np_float
  | SetAmplitude real
  | SetBandwidth bandwidth_value

record env =
  accept_frequency :: "np_float \<Rightarrow> real"
  accept_amplitude :: "real \<Rightarrow> real"
  accept_bandwidth :: "bandwidth_value \<Rightarrow> real list"
  raw_sample :: "nat \<Rightarrow> error + complex"
  latency :: "nat \<Rightarrow> real"

record iq_module =
  iq_frequency :: real
  iq_bandwidth :: "real list"
  iq_amplitude :: real
  iq_gain :: real
  iq_phase :: real
  iq_acbandwidth :: real
  iq_input :: string
  iq_output_direct :: string
  iq_output_signal :: string
  iq_na_averages :: "int option"
  iq_LPFBITS :: int
  iq_writes :: "reg_write list"
  iq_logger :: "string list"

record host =
  now :: real
  clock_reads :: nat
  sample_reads :: nat
  slept :: "real list"

record na =
  start :: real
  stop :: real
  points :: int
  avg :: real
  amplitude_stored :: real
  input :: string
  output_direct :: string
  acbandwidth :: real
  sleeptimes :: real
  logscale :: bool
  stabilize :: stabilize_mode
  maxamplitude :: real
  setup_done :: bool
  x_axis :: "np_float list option"
  na_sleepcycles :: "int option"
  rescale :: "real option"
  current_point :: "nat option"
  time_last_point :: "real option"
  iq :: iq_module
  world :: host

text \<open>Register writes: the value pushed is recorded, the value accepted is stored.\<close>

definition iq_set_frequency :: "env \<Rightarrow> np_float \<Rightarrow> iq_module \<Rightarrow> iq_module" where
  "iq_set_frequency e v q =
     q\<lparr>iq_frequency := accept_frequency e v, iq_writes := iq_writes q @ [SetFrequency v]\<rparr>"

definition iq_set_amplitude :: "env \<Rightarrow> real \<Rightarrow> iq_module \<Rightarrow> iq_module" where
  "iq_set_amplitude e v q =
     q\<lparr>iq_amplitude := accept_amplitude e v, iq_writes := iq_writes q @ [SetAmplitude v]\<rparr>"

definition iq_set_bandwidth :: "env \<Rightarrow> bandwidth_value \<Rightarrow> iq_module \<Rightarrow> iq_module" where
  "iq_set_bandwidth e v q =
     q\<lparr>iq_bandwidth := accept_bandwidth e v, iq_writes := iq_writes q @ [SetBandwidth v]\<rparr>"

text \<open>
  \<^verbatim>\<open>time()\<close>: before the k-th reading of the clock the host lets \<open>latency e k\<close>
  seconds pass. \<^verbatim>\<open>sleep(d)\<close> lets \<open>d\<close> seconds pass and is recorded.
\<close>

definition time_call :: "env \<Rightarrow> na \<Rightarrow> real \<times> na" where
  "time_call e s =
     (let w = world s; t = now w + latency e (clock_reads w)
      in (t, s\<lparr>world := w\<lparr>now := t, clock_reads := Suc (clock_reads w)\<rparr>\<rparr>))"

definition sleep :: "real \<Rightarrow> na \<Rightarrow> na" where
  "sleep d s = s\<lparr>world := (world s)\<lparr>now := now (world s) + d, slept := slept (world s) @ [d]\<rparr>\<rparr>"

subsection \<open>The properties \<^verbatim>\<open>rbw\<close> and \<^verbatim>\<open>amplitude\<close> (lines 192-216)\<close>

definition rbw :: "na \<Rightarrow> error + real" where
  "rbw s = (case iq_bandwidth (iq s) of [] \<Rightarrow> Inl IndexError | b # _ \<Rightarrow> Inr b)"

definition rbw_set :: "env \<Rightarrow> bandwidth_value \<Rightarrow> na \<Rightarrow> na" where
  "rbw_set e val s =
     (let val' = (case val of Many l \<Rightarrow> l | One v \<Rightarrow> [v, v])
      in s\<lparr>iq := iq_set_bandwidth e (Many val') (iq s)\<rparr>)"

definition amplitude :: "na \<Rightarrow> real" where
  "amplitude s = amplitude_stored s"

definition amplitude_set :: "env \<Rightarrow> real \<Rightarrow> na \<Rightarrow> na" where
  "amplitude_set e val s =
     (let q = iq_set_amplitude e val (iq s)
      in s\<lparr>iq := q, amplitude_stored := iq_amplitude q\<rparr>)"

subsection \<open>\<^verbatim>\<open>__init__\<close> (lines 28-44)\<close>

text \<open>
  The demodulator that \<^verbatim>\<open>self.rp.iqs.pop()\<close> hands out at the first use of
  \<^verbatim>\<open>self.iq\<close> is the argument \<open>q\<close>. The assignments to \<^verbatim>\<open>self.rbw\<close> and
  \<^verbatim>\<open>self.amplitude\<close> go through the property setters, in the order of the source.
\<close>

definition init :: "env \<Rightarrow> iq_module \<Rightarrow> host \<Rightarrow> na" where
  "init e q w =
     (let s0 = \<lparr>start = 200, stop = 50000, points = 1001, avg = 0,
                amplitude_stored = 0, input = [], output_direct = [], acbandwidth = 0,
                sleeptimes = 0, logscale = False, stabilize = Off, maxamplitude = 0,
                setup_done = False, x_axis = None, na_sleepcycles = None, rescale = None,
                current_point = None, time_last_point = None, iq = q, world = w\<rparr>;
          s1 = rbw_set e (One 200) s0;
          s2 = s1\<lparr>avg := 1\<rparr>;
          s3 = amplitude_set e (1 / 100) s2
      in s3\<lparr>input := ''adc1'', output_direct := ''off'', acbandwidth := 0,
            sleeptimes := 1 / 2, logscale := False, stabilize := Off,
            maxamplitude := 1, setup_done := False\<rparr>)"

subsection \<open>The numpy functions that \<^verbatim>\<open>setup\<close> calls\<close>

text \<open>
  Arithmetic on numpy's floats, as far as \<^verbatim>\<open>np.linspace\<close> and \<^verbatim>\<open>np.logspace\<close> use it:
  exact on finite values, and with the rules of IEEE 754 for the infinities and nan
  (rounding, overflow and the sign of zero are outside the model).
\<close>

fun np_add :: "np_float \<Rightarrow> np_float \<Rightarrow> np_float" where
  "np_add NaN _ = NaN"
| "np_add _ NaN = NaN"
| "np_add (Finite x) (Finite y) = Finite (x + y)"
| "np_add PosInf NegInf = NaN"
| "np_add NegInf PosInf = NaN"
| "np_add PosInf _ = PosInf"
| "np_add _ PosInf = PosInf"
| "np_add NegInf _ = NegInf"
| "np_add _ NegInf = NegInf"

fun np_neg :: "np_float \<Rightarrow> np_float" where
  "np_neg (Finite x) = Finite (- x)"
| "np_neg PosInf = NegInf"
| "np_neg NegInf = PosInf"
| "np_neg NaN = NaN"

definition np_sub :: "np_float \<Rightarrow> np_float \<Rightarrow> np_float" where
  "np_sub a b = np_add a (np_neg b)"

definition signed_inf :: "bool \<Rightarrow> np_float" where
  "signed_inf positive = (if positive then PosInf else NegInf)"

fun np_mul :: "np_float \<Rightarrow> np_float \<Rightarrow> np_float" where
  "np_mul NaN _ = NaN"
| "np_mul _ NaN = NaN"
| "np_mul (Finite x) (Finite y) = Finite (x * y)"
| "np_mul (Finite x) PosInf = (if x = 0 then NaN else signed_inf (0 < x))"
| "np_mul (Finite x) NegInf = (if x = 0 then NaN else signed_inf (x < 0))"
| "np_mul PosInf (Finite y) = (if y = 0 then NaN else signed_inf (0 < y))"
| "np_mul NegInf (Finite y) = (if y = 0 then NaN else signed_inf (y < 0))"
| "np_mul PosInf PosInf = PosInf"
| "np_mul PosInf NegInf = NegInf"
| "np_mul NegInf PosInf = NegInf"
| "np_mul NegInf NegInf = PosInf"

text \<open>Division by a number, here always the integer \<^verbatim>\<open>div = num - 1\<close>.\<close>

fun np_div :: "np_float \<Rightarrow> real \<Rightarrow> np_float" where
  "np_div NaN d = NaN"
| "np_div (Finite x) d =
     (if d \<noteq> 0 then Finite (x / d) else if x = 0 then NaN else signed_inf (0 < x))"
| "np_div PosInf d = signed_inf (0 \<le> d)"
| "np_div NegInf d = signed_inf (d < 0)"

fun np_power10 :: "np_float \<Rightarrow> np_float" where
  "np_power10 (Finite x) = Finite (10 powr x)"
| "np_power10 PosInf = PosInf"
| "np_power10 NegInf = Finite 0"
| "np_power10 NaN = NaN"

text \<open>
  \<^verbatim>\<open>np.log10\<close> warns and returns minus infinity at 0 and nan below 0; it does not
  raise (the module never changes numpy's error state).
\<close>

definition log10 :: "real \<Rightarrow> np_float" where
  "log10 v = (if 0 < v then Finite (log 10 v) else if v = 0 then NegInf else NaN)"

text \<open>
  \<^verbatim>\<open>np.linspace(start, stop, num, endpoint=True)\<close>: a negative \<open>num\<close> raises ValueError.
  Otherwise, with \<^verbatim>\<open>div = num - 1\<close>, \<^verbatim>\<open>delta = stop - start\<close> and \<^verbatim>\<open>y = arange(0, num)\<close>:
  if \<^verbatim>\<open>div > 0\<close> then \<^verbatim>\<open>step = delta / div\<close> and \<^verbatim>\<open>y = y * step\<close> (or
  \<^verbatim>\<open>y = y / div * delta\<close> if the step is 0), else \<^verbatim>\<open>y = y * delta\<close>; then
  \<^verbatim>\<open>y += start\<close>, and the last sample is overwritten with \<^verbatim>\<open>stop\<close> if \<^verbatim>\<open>num > 1\<close>.
  \<^verbatim>\<open>np.logspace(start, stop, num)\<close> is ten to the power of these samples.
  \<^verbatim>\<open>np.round\<close> rounds halves to the even neighbour.
\<close>

definition linspace :: "np_float \<Rightarrow> np_float \<Rightarrow> int \<Rightarrow> error + np_float list" where
  "linspace a b num =
     (if num < 0 then Inl ValueError
      else let n = nat num;
               dv = num - 1;
               delta = np_sub b a;
               y = map (\<lambda>i. Finite (of_nat i)) [0..<n];
               y = (if 0 < dv then
                      (let step = np_div delta (of_int dv)
                       in if step = Finite 0
                          then map (\<lambda>v. np_mul (np_div v (of_int dv)) delta) y
                          else map (\<lambda>v. np_mul v step) y)
                    else map (\<lambda>v. np_mul v delta) y);
               y = map (\<lambda>v. np_add v a) y
           in Inr (if 1 < n then y[n - 1 := b] else y))"

definition logspace :: "np_float \<Rightarrow> np_float \<Rightarrow> int \<Rightarrow> error + np_float list" where
  "logspace a b num =
     (case linspace a b num of Inl err \<Rightarrow> Inl err | Inr y \<Rightarrow> Inr (map np_power10 y))"

definition np_round :: "real \<Rightarrow> int" where
  "np_round v =
     (let f = \<lfloor>v\<rfloor>; d = v - of_int f
      in if d < 1 / 2 then f else if 1 / 2 < d then f + 1 else if even f then f else f + 1)"

subsection \<open>\<^verbatim>\<open>setup\<close> (lines 81-181)\<close>

record options =
  opt_start :: "real option"
  opt_stop :: "real option"
  opt_points :: "int option"
  opt_rbw :: "bandwidth_value option"
  opt_avg :: "real option"
  opt_amplitude :: "real option"
  opt_input :: "string option"
  opt_output_direct :: "string option"
  opt_acbandwidth :: "real option"
  opt_sleeptimes :: "real option"
  opt_logscale :: "bool option"
  opt_stabilize :: "stabilize_mode option"
  opt_maxamplitude :: "real option"

definition no_options :: options where
  "no_options =
     \<lparr>opt_start = None, opt_stop = None, opt_points = None, opt_rbw = None,
      opt_avg = None, opt_amplitude = None, opt_input = None, opt_output_direct = None,
      opt_acbandwidth = None, opt_sleeptimes = None, opt_logscale = None,
      opt_stabilize = None, opt_maxamplitude = None\<rparr>"

text \<open>Lines 120-132: one assignment for each option that is not \<^verbatim>\<open>None\<close>.\<close>

definition assign :: "'a option \<Rightarrow> ('a \<Rightarrow> na \<Rightarrow> na) \<Rightarrow> na \<Rightarrow> na" where
  "assign opt f s = (case opt of None \<Rightarrow> s | Some v \<Rightarrow> f v s)"

definition merge_options :: "env \<Rightarrow> options \<Rightarrow> na \<Rightarrow> na" where
  "merge_options e opts s =
     (let s = assign (opt_start opts) (\<lambda>v s. s\<lparr>start := v\<rparr>) s;
          s = assign (opt_stop opts) (\<lambda>v s. s\<lparr>stop := v\<rparr>) s;
          s = assign (opt_points opts) (\<lambda>v s. s\<lparr>points := v\<rparr>) s;
          s = assign (opt_rbw opts) (rbw_set e) s;
          s = assign (opt_avg opts) (\<lambda>v s. s\<lparr>avg := v\<rparr>) s;
          s = assign (opt_amplitude opts) (amplitude_set e) s;
          s = assign (opt_input opts) (\<lambda>v s. s\<lparr>input := v\<rparr>) s;
          s = assign (opt_output_direct opts) (\<lambda>v s. s\<lparr>output_direct := v\<rparr>) s;
          s = assign (opt_acbandwidth opts) (\<lambda>v s. s\<lparr>acbandwidth := v\<rparr>) s;
          s = assign (opt_sleeptimes opts) (\<lambda>v s. s\<lparr>sleeptimes := v\<rparr>) s;
          s = assign (opt_logscale opts) (\<lambda>v s. s\<lparr>logscale := v\<rparr>) s;
          s = assign (opt_stabilize opts) (\<lambda>v s. s\<lparr>stabilize := v\<rparr>) s
      in assign (opt_maxamplitude opts) (\<lambda>v s. s\<lparr>maxamplitude := v\<rparr>) s)"

text \<open>Lines 136-143: the frequency axis of the merged configuration.\<close>

definition axis :: "na \<Rightarrow> error + np_float list" where
  "axis s =
     (if logscale s then logspace (log10 (start s)) (log10 (stop s)) (points s)
      else linspace (Finite (start s)) (Finite (stop s)) (points s))"

text \<open>
  \<^verbatim>\<open>iq.setup(...)\<close> (lines 150-158) belongs to the demodulator: it is taken to assign
  the registers it names, in the order of its arguments.
\<close>

definition iq_setup ::
  "env \<Rightarrow> np_float \<Rightarrow> real \<Rightarrow> real \<Rightarrow> real \<Rightarrow> real \<Rightarrow> real \<Rightarrow> string \<Rightarrow> string \<Rightarrow> string
     \<Rightarrow> iq_module \<Rightarrow> iq_module" where
  "iq_setup e frequency bandwidth gain phase acbw ampl inp outd outs q =
     (let q = iq_set_frequency e frequency q;
          q = iq_set_bandwidth e (One bandwidth) q;
          q = q\<lparr>iq_gain := gain, iq_phase := phase, iq_acbandwidth := acbw\<rparr>;
          q = iq_set_amplitude e ampl q
      in q\<lparr>iq_input := inp, iq_output_direct := outd, iq_output_signal := outs\<rparr>)"

text \<open>
  \<open>125e6 / self.rbw\<close> (lines 166-167) divides by the bandwidth read back from the
  demodulator: a bandwidth 0 is Python's ZeroDivisionError.
\<close>

definition cycles :: "na \<Rightarrow> real \<Rightarrow> error + int" where
  "cycles s factor =
     (case rbw s of
        Inl err \<Rightarrow> Inl err
      | Inr b \<Rightarrow> if b = 0 then Inl ZeroDivisionError
                 else Inr (np_round (125000000 / b * factor)))"

definition setup_na :: "env \<Rightarrow> options \<Rightarrow> na \<Rightarrow> (error + unit) \<times> na" where
  "setup_na e opts s0 =
     (let s = merge_options e opts s0;
          s = s\<lparr>setup_done := True\<rparr>
      in case axis s of
           Inl err \<Rightarrow> (Inl err, s)
         | Inr xs \<Rightarrow>
            (let s = s\<lparr>x_axis := Some xs\<rparr>;
                 maxamp = \<bar>maxamplitude s\<bar>;
                 ampl = \<bar>amplitude s\<bar>;
                 ampl = (if ampl > maxamp then maxamp else ampl)
             in case xs of
                  [] \<Rightarrow> (Inl IndexError, s)
                | x0 # _ \<Rightarrow>
                   (case rbw s of
                      Inl err \<Rightarrow> (Inl err, s)
                    | Inr b \<Rightarrow>
                       (let s = s\<lparr>iq := iq_setup e x0 b 0 0 (- acbandwidth s) ampl
                                           (input s) (output_direct s) ''output_direct'' (iq s)\<rparr>
                        in case rbw s of
                             Inl err \<Rightarrow> (Inl err, s)
                           | Inr _ \<Rightarrow>
                              (case cycles s (avg s) of
                                 Inl err \<Rightarrow> (Inl err, s)
                               | Inr na_avg \<Rightarrow>
                                  (let s = s\<lparr>iq := (iq s)\<lparr>iq_na_averages := Some na_avg\<rparr>\<rparr>
                                   in case cycles s (sleeptimes s) of
                                        Inl err \<Rightarrow> (Inl err, s)
                                      | Inr sc \<Rightarrow>
                                         (let s = s\<lparr>na_sleepcycles := Some sc\<rparr>;
                                              s = s\<lparr>rescale := Some (2 powi (- iq_LPFBITS (iq s)) * 4)\<rparr>;
                                              s = s\<lparr>current_point := Some 0\<rparr>;
                                              s = s\<lparr>iq := iq_set_frequency e x0 (iq s)\<rparr>;
                                              (t, s) = time_call e s
                                          in (Inr (), s\<lparr>time_last_point := Some t\<rparr>))))))))"

subsection \<open>Fetching a point (lines 218-242)\<close>

definition time_per_point :: "na \<Rightarrow> error + real" where
  "time_per_point s =
     (case rbw s of
        Inl err \<Rightarrow> Inl err
      | Inr b \<Rightarrow> if b = 0 then Inl ZeroDivisionError
                 else Inr (1 / b * (avg s + sleeptimes s)))"

text \<open>
  \<^verbatim>\<open>self.iq._nadata\<close> is the \<open>k\<close>-th sample the demodulator delivers, where \<open>k\<close>
  counts the reads so far; the read may fail.
\<close>

definition read_nadata :: "env \<Rightarrow> na \<Rightarrow> (error + complex) \<times> na" where
  "read_nadata e s =
     (let w = world s
      in (raw_sample e (sample_reads w), s\<lparr>world := w\<lparr>sample_reads := Suc (sample_reads w)\<rparr>\<rparr>))"

definition get_current_point :: "env \<Rightarrow> na \<Rightarrow> (error + real \<times> complex \<times> real) \<times> na" where
  "get_current_point e s0 =
     (let (current_time, s) = time_call e s0
      in case time_last_point s of
           None \<Rightarrow> (Inl AttributeError, s)
         | Some tlast \<Rightarrow>
            (let duration = current_time - tlast
             in case time_per_point s of
                  Inl err \<Rightarrow> (Inl err, s)
                | Inr tpp \<Rightarrow>
                   (let remaining = tpp - duration;
                        s = (if remaining \<ge> 0 then sleep remaining s else s);
                        x = iq_frequency (iq s);
                        (r, s) = read_nadata e s
                    in case r of
                         Inl err \<Rightarrow> (Inl err, s)
                       | Inr y \<Rightarrow>
                          (let amp = amplitude s
                           in case rescale s of
                                None \<Rightarrow> (Inl AttributeError, s)
                              | Some resc \<Rightarrow>
                                 (if amp = 0 then (Inr (x, y * of_real resc, amp), s)
                                  else (Inr (x, y * of_real (resc / amp), amp), s))))))"

subsection \<open>Preparing the next point (lines 244-259)\<close>

text \<open>
  Line 250 reads the name \<^verbatim>\<open>y\<close>. The function has no local of that name (its
  parameter is \<^verbatim>\<open>last_normalized_val\<close>) and the module has no global one: the
  lookup raises NameError before anything is assigned.
\<close>

definition lookup_y :: "error + complex" where
  "lookup_y = Inl NameError"

definition prepare_for_next_point :: "env \<Rightarrow> complex \<Rightarrow> na \<Rightarrow> (error + unit) \<times> na" where
  "prepare_for_next_point e last_normalized_val s =
     (case (case stabilize s of
              Target t \<Rightarrow> (case lookup_y of Inl err \<Rightarrow> Inl err | Inr y \<Rightarrow> Inr (t / cmod y))
            | Off \<Rightarrow> Inr (amplitude s)) of
        Inl err \<Rightarrow> (Inl err, s)
      | Inr amplitude_next \<Rightarrow>
         (let amplitude_next =
                (if amplitude_next > maxamplitude s then maxamplitude s else amplitude_next);
              s = s\<lparr>iq := iq_set_amplitude e amplitude_next (iq s)\<rparr>
          in case current_point s of
               None \<Rightarrow> (Inl AttributeError, s)
             | Some c \<Rightarrow>
                (let s = s\<lparr>current_point := Some (Suc c)\<rparr>
                 in if int (Suc c) < points s then
                      (case x_axis s of
                         None \<Rightarrow> (Inl AttributeError, s)
                       | Some xs \<Rightarrow>
                          if Suc c < length xs then
                            (let s = s\<lparr>iq := iq_set_frequency e (xs ! Suc c) (iq s)\<rparr>;
                                 (t, s) = time_call e s
                             in (Inr (), s\<lparr>time_last_point := Some t\<rparr>))
                          else (Inl IndexError, s))
                    else (let (t, s) = time_call e s
                          in (Inr (), s\<lparr>time_last_point := Some t\<rparr>)))))"

subsection \<open>The generator \<^verbatim>\<open>values\<close> (lines 261-291)\<close>

text \<open>
  A Python generator is created without running its body, runs from one
  \<^verbatim>\<open>yield\<close> to the next at each \<^verbatim>\<open>next()\<close>, and is closed by \<^verbatim>\<open>close()\<close>
  (which the interpreter also calls when the consumer drops it): GeneratorExit is then
  raised at the \<^verbatim>\<open>yield\<close>; it is no \<^verbatim>\<open>Exception\<close>, so only the \<^verbatim>\<open>finally\<close>
  block runs. An exception raised inside \<^verbatim>\<open>finally\<close> replaces the one in flight.
\<close>

datatype gen_state = Created | Suspended | Closed

datatype outcome = Yield "real \<times> complex \<times> real" | StopIteration | Raised error

definition log_info :: "string \<Rightarrow> na \<Rightarrow> na" where
  "log_info msg s = s\<lparr>iq := (iq s)\<lparr>iq_logger := iq_logger (iq s) @ [msg]\<rparr>\<rparr>"

text \<open>Lines 289-291, the \<^verbatim>\<open>finally\<close> block.\<close>

definition finalizer :: "env \<Rightarrow> na \<Rightarrow> (error + unit) \<times> na" where
  "finalizer e s0 =
     (let s = s0\<lparr>iq := iq_set_amplitude e 0 (iq s0)\<rparr>
      in case x_axis s of
           None \<Rightarrow> (Inl AttributeError, s)
         | Some [] \<Rightarrow> (Inl IndexError, s)
         | Some (x0 # _) \<Rightarrow> (Inr (), s\<lparr>iq := iq_set_frequency e x0 (iq s)\<rparr>))"

text \<open>Lines 286-288 followed by the \<^verbatim>\<open>finally\<close> block.\<close>

definition handler :: "env \<Rightarrow> error \<Rightarrow> na \<Rightarrow> outcome \<times> gen_state \<times> na" where
  "handler e err s0 =
     (let s = log_info ''NA output turned off due to an exception'' s0
      in case finalizer e s of
           (Inl err', s) \<Rightarrow> (Raised err', Closed, s)
         | (Inr _, s) \<Rightarrow> (Raised err, Closed, s))"

text \<open>The body from the head of the \<^verbatim>\<open>while\<close> loop to the next \<^verbatim>\<open>yield\<close> or to the end.\<close>

definition values_body :: "env \<Rightarrow> na \<Rightarrow> outcome \<times> gen_state \<times> na" where
  "values_body e s =
     (case current_point s of
        None \<Rightarrow> handler e AttributeError s
      | Some c \<Rightarrow>
         if int c < points s then
           (case get_current_point e s of
              (Inl err, s) \<Rightarrow> handler e err s
            | (Inr (x, y, amp), s) \<Rightarrow>
               (let (x, s) = (if start s = stop s then time_call e s else (x, s))
                in case prepare_for_next_point e y s of
                     (Inl err, s) \<Rightarrow> handler e err s
                   | (Inr _, s) \<Rightarrow> (Yield (x, y, amp), Suspended, s)))
         else
           (case finalizer e s of
              (Inl err, s) \<Rightarrow> (Raised err, Closed, s)
            | (Inr _, s) \<Rightarrow> (StopIteration, Closed, s)))"

definition values_next :: "env \<Rightarrow> gen_state \<Rightarrow> na \<Rightarrow> outcome \<times> gen_state \<times> na" where
  "values_next e g s = (case g of Closed \<Rightarrow> (StopIteration, Closed, s) | _ \<Rightarrow> values_body e s)"

definition values_close :: "env \<Rightarrow> gen_state \<Rightarrow> na \<Rightarrow> (error + unit) \<times> gen_state \<times> na" where
  "values_close e g s =
     (case g of
        Suspended \<Rightarrow>
          (case finalizer e s of
             (Inl err, s) \<Rightarrow> (Inl err, Closed, s)
           | (Inr _, s) \<Rightarrow> (Inr (), Closed, s))
      | _ \<Rightarrow> (Inr (), Closed, s))"

text \<open>
  What the \<^verbatim>\<open>finally\<close> block leaves behind when the axis starts at \<open>x0\<close>: the
  demodulator holds what it accepted for the amplitude 0 and the frequency \<open>x0\<close>, and
  these two writes are the last it received.
\<close>

definition cleaned_up :: "env \<Rightarrow> np_float \<Rightarrow> na \<Rightarrow> bool" where
  "cleaned_up e x0 s \<longleftrightarrow>
     iq_amplitude (iq s) = accept_amplitude e 0
     \<and> iq_frequency (iq s) = accept_frequency e x0
     \<and> drop (length (iq_writes (iq s)) - 2) (iq_writes (iq s)) = [SetAmplitude 0, SetFrequency x0]"

subsection \<open>Runs of the generator\<close>

text \<open>
  A consumer drives the generator by a sequence of requests; \<open>consume\<close> collects what
  the calls of \<^verbatim>\<open>next()\<close> return. The \<^verbatim>\<open>for\<close> loop of \<^verbatim>\<open>curve\<close> (lines 335-338)
  is such a consumer: it requests the next value until a request does not yield one.
\<close>

datatype request = Next | Close

fun consume :: "env \<Rightarrow> request list \<Rightarrow> gen_state \<Rightarrow> na \<Rightarrow> outcome list \<times> gen_state \<times> na" where
  "consume e [] g s = ([], g, s)"
| "consume e (Next # rs) g s =
     (case values_next e g s of
        (out, g', s') \<Rightarrow>
          (case consume e rs g' s' of (outs, g'', s'') \<Rightarrow> (out # outs, g'', s'')))"
| "consume e (Close # rs) g s =
     (case values_close e g s of (_, g', s') \<Rightarrow> consume e rs g' s')"

fun reported :: "outcome list \<Rightarrow> real list" where
  "reported [] = []"
| "reported (Yield (x, y, amp) # outs) = x # reported outs"
| "reported (_ # outs) = reported outs"

subsection \<open>A concrete demodulator and host\<close>

text \<open>
  A demodulator that accepts every number as it is written (one bandwidth sets both
  filter stages; a frequency that is no number reads back as 0) and delivers the sample
  1 at every read, and a host on which only \<^verbatim>\<open>sleep\<close> lets time pass.
\<close>

definition ideal_env :: env where
  "ideal_env =
     \<lparr>accept_frequency = (\<lambda>v. case v of Finite x \<Rightarrow> x | _ \<Rightarrow> 0),
      accept_amplitude = (\<lambda>v. v),
      accept_bandwidth = (\<lambda>b. case b of One v \<Rightarrow> [v, v] | Many l \<Rightarrow> l),
      raw_sample = (\<lambda>k. Inr 1), latency = (\<lambda>k. 0)\<rparr>"

definition blank_iq :: iq_module where
  "blank_iq =
     \<lparr>iq_frequency = 0, iq_bandwidth = [], iq_amplitude = 0, iq_gain = 0, iq_phase = 0,
      iq_acbandwidth = 0, iq_input = [], iq_output_direct = [], iq_output_signal = [],
      iq_na_averages = None, iq_LPFBITS = 24, iq_writes = [], iq_logger = []\<rparr>"

definition host0 :: host where
  "host0 = \<lparr>now = 0, clock_reads = 0, sample_reads = 0, slept = []\<rparr>"

definition na0 :: na where
  "na0 = init ideal_env blank_iq host0"

text \<open>
  Calls of \<^verbatim>\<open>setup\<close> on the analyzer as constructed: \<^verbatim>\<open>setup(points=1)\<close>,
  \<^verbatim>\<open>setup(points=1, amplitude=0)\<close>, \<^verbatim>\<open>setup(points=1, stabilize=0.1)\<close>,
  \<^verbatim>\<open>setup(points=2, amplitude=-2)\<close>, \<^verbatim>\<open>setup(start=1000, stop=1000, points=2)\<close>,
  the same with \<^verbatim>\<open>avg=0, sleeptimes=0\<close>, \<^verbatim>\<open>setup(points=1, rbw=[100, 50])\<close> and
  \<^verbatim>\<open>setup(start=0, stop=1000, points=3, logscale=True)\<close>.
\<close>

definition one_point :: options where
  "one_point = no_options\<lparr>opt_points := Some 1\<rparr>"

definition zero_drive :: options where
  "zero_drive = no_options\<lparr>opt_points := Some 1, opt_amplitude := Some 0\<rparr>"

definition stabilized :: options where
  "stabilized = no_options\<lparr>opt_points := Some 1, opt_stabilize := Some (Target (1 / 10))\<rparr>"

definition negative_drive :: options where
  "negative_drive = no_options\<lparr>opt_points := Some 2, opt_amplitude := Some (- 2)\<rparr>"



definition finer_filter :: options where
  "finer_filter = no_options\<lparr>opt_points := Some 1, opt_rbw := Some (Many [100, 50])\<rparr>"

definition log_from_zero :: options where
  "log_from_zero = no_options\<lparr>opt_start := Some 0, opt_stop := Some 1000, opt_points := Some 3,
                               opt_logscale := Some True\<rparr>"

definition na1 :: na where
  "na1 = snd (setup_na ideal_env one_point na0)"

text \<open>
  A demodulator that differs from the ideal one in what it makes of a bandwidth written
  as one number: it sets both filter stages to half of it.
\<close>

definition halving_env :: env where
  "halving_env =
     ideal_env\<lparr>accept_bandwidth := (\<lambda>b. case b of One v \<Rightarrow> [v / 2, v / 2] | Many l \<Rightarrow> l)\<rparr>"

section \<open>Theorems\<close>

text \<open>
  C10. Writing the property \<^verbatim>\<open>amplitude\<close> pushes the requested value to the
  demodulator (it is the last register write) and stores what the demodulator then
  reports, so that reading \<^verbatim>\<open>amplitude\<close> afterwards gives the accepted value, which is
  also the value of the demodulator's register.
\<close>

theorem amplitude_set_reads_back:
  "iq_writes (iq (amplitude_set e val s)) = iq_writes (iq s) @ [SetAmplitude val]
   \<and> amplitude (amplitude_set e val s) = accept_amplitude e val
   \<and> amplitude (amplitude_set e val s) = iq_amplitude (iq (amplitude_set e val s))"
  by (simp add: amplitude_set_def amplitude_def iq_set_amplitude_def Let_def)

subsection \<open>The merge of the options\<close>

lemma assign_frame: "(\<And>v s. fld (f v s) = fld s) \<Longrightarrow> fld (assign opt f s) = fld s"
  by (cases opt) (simp_all add: assign_def)

lemma assign_own:
  "(\<And>v s. fld (f v s) = g v) \<Longrightarrow>
     fld (assign opt f s) = (case opt of None \<Rightarrow> fld s | Some v \<Rightarrow> g v)"
  by (cases opt) (simp_all add: assign_def)

lemmas setter_defs =
  rbw_set_def amplitude_set_def iq_set_bandwidth_def iq_set_amplitude_def Let_def

lemma merge_start:
  "start (merge_options e opts s) = (case opt_start opts of None \<Rightarrow> start s | Some v \<Rightarrow> v)"
  unfolding merge_options_def Let_def
  by (simp add: assign_frame[where fld=start] assign_own[where fld=start and g="\<lambda>v. v"]
        setter_defs cong: option.case_cong)

lemma merge_stop:
  "stop (merge_options e opts s) = (case opt_stop opts of None \<Rightarrow> stop s | Some v \<Rightarrow> v)"
  unfolding merge_options_def Let_def
  by (simp add: assign_frame[where fld=stop] assign_own[where fld=stop and g="\<lambda>v. v"]
        setter_defs cong: option.case_cong)

lemma merge_points:
  "points (merge_options e opts s) = (case opt_points opts of None \<Rightarrow> points s | Some v \<Rightarrow> v)"
  unfolding merge_options_def Let_def
  by (simp add: assign_frame[where fld=points] assign_own[where fld=points and g="\<lambda>v. v"]
        setter_defs cong: option.case_cong)

lemma merge_avg:
  "avg (merge_options e opts s) = (case opt_avg opts of None \<Rightarrow> avg s | Some v \<Rightarrow> v)"
  unfolding merge_options_def Let_def
  by (simp add: assign_frame[where fld=avg] assign_own[where fld=avg and g="\<lambda>v. v"]
        setter_defs cong: option.case_cong)

lemma merge_amplitude:
  "amplitude_stored (merge_options e opts s) =
     (case opt_amplitude opts of None \<Rightarrow> amplitude_stored s | Some v \<Rightarrow> accept_amplitude e v)"
  unfolding merge_options_def Let_def
  by (simp add: assign_frame[where fld=amplitude_stored]
        assign_own[where fld=amplitude_stored and g="accept_amplitude e"]
        setter_defs cong: option.case_cong)

lemma merge_input:
  "input (merge_options e opts s) = (case opt_input opts of None \<Rightarrow> input s | Some v \<Rightarrow> v)"
  unfolding merge_options_def Let_def
  by (simp add: assign_frame[where fld=input] assign_own[where fld=input and g="\<lambda>v. v"]
        setter_defs cong: option.case_cong)

lemma merge_output_direct:
  "output_direct (merge_options e opts s) =
     (case opt_output_direct opts of None \<Rightarrow> output_direct s | Some v \<Rightarrow> v)"
  unfolding merge_options_def Let_def
  by (simp add: assign_frame[where fld=output_direct]
        assign_own[where fld=output_direct and g="\<lambda>v. v"]
        setter_defs cong: option.case_cong)

lemma merge_acbandwidth:
  "acbandwidth (merge_options e opts s) =
     (case opt_acbandwidth opts of None \<Rightarrow> acbandwidth s | Some v \<Rightarrow> v)"
  unfolding merge_options_def Let_def
  by (simp add: assign_frame[where fld=acbandwidth]
        assign_own[where fld=acbandwidth and g="\<lambda>v. v"]
        setter_defs cong: option.case_cong)

lemma merge_sleeptimes:
  "sleeptimes (merge_options e opts s) =
     (case opt_sleeptimes opts of None \<Rightarrow> sleeptimes s | Some v \<Rightarrow> v)"
  unfolding merge_options_def Let_def
  by (simp add: assign_frame[where fld=sleeptimes]
        assign_own[where fld=sleeptimes and g="\<lambda>v. v"]
        setter_defs cong: option.case_cong)

lemma merge_logscale:
  "logscale (merge_options e opts s) =
     (case opt_logscale opts of None \<Rightarrow> logscale s | Some v \<Rightarrow> v)"
  unfolding merge_options_def Let_def
  by (simp add: assign_frame[where fld=logscale] assign_own[where fld=logscale and g="\<lambda>v. v"]
        setter_defs cong: option.case_cong)

lemma merge_stabilize:
  "stabilize (merge_options e opts s) =
     (case opt_stabilize opts of None \<Rightarrow> stabilize s | Some v \<Rightarrow> v)"
  unfolding merge_options_def Let_def
  by (simp add: assign_frame[where fld=stabilize] assign_own[where fld=stabilize and g="\<lambda>v. v"]
        setter_defs cong: option.case_cong)

lemma merge_maxamplitude:
  "maxamplitude (merge_options e opts s) =
     (case opt_maxamplitude opts of None \<Rightarrow> maxamplitude s | Some v \<Rightarrow> v)"
  unfolding merge_options_def Let_def
  by (simp add: assign_frame[where fld=maxamplitude]
        assign_own[where fld=maxamplitude and g="\<lambda>v. v"]
        setter_defs cong: option.case_cong)

lemma merge_bandwidth:
  "iq_bandwidth (iq (merge_options e opts s)) =
     (case opt_rbw opts of
        None \<Rightarrow> iq_bandwidth (iq s)
      | Some v \<Rightarrow> accept_bandwidth e (Many (case v of Many l \<Rightarrow> l | One r \<Rightarrow> [r, r])))"
  unfolding merge_options_def Let_def
  by (simp add: assign_frame[where fld="\<lambda>s. iq_bandwidth (iq s)"]
        assign_own[where fld="\<lambda>s. iq_bandwidth (iq s)"
          and g="\<lambda>v. accept_bandwidth e (Many (case v of Many l \<Rightarrow> l | One r \<Rightarrow> [r, r]))"]
        setter_defs cong: option.case_cong)

lemma merge_world: "world (merge_options e opts s) = world s"
  unfolding merge_options_def Let_def
  by (simp add: assign_frame[where fld=world] setter_defs)

lemma merge_LPFBITS: "iq_LPFBITS (iq (merge_options e opts s)) = iq_LPFBITS (iq s)"
  unfolding merge_options_def Let_def
  by (simp add: assign_frame[where fld="\<lambda>s. iq_LPFBITS (iq s)"] setter_defs)

lemmas merge_fields =
  merge_start merge_stop merge_points merge_avg merge_amplitude merge_input
  merge_output_direct merge_acbandwidth merge_sleeptimes merge_logscale merge_stabilize
  merge_maxamplitude

subsection \<open>What \<open>setup_na\<close> leaves behind\<close>

lemmas setup_unfold =
  setup_na_def Let_def iq_setup_def time_call_def cycles_def rbw_def
  iq_set_frequency_def iq_set_bandwidth_def iq_set_amplitude_def amplitude_def

lemma setup_na_config:
  "start (snd (setup_na e opts s)) = start (merge_options e opts s)"
  "stop (snd (setup_na e opts s)) = stop (merge_options e opts s)"
  "points (snd (setup_na e opts s)) = points (merge_options e opts s)"
  "avg (snd (setup_na e opts s)) = avg (merge_options e opts s)"
  "amplitude_stored (snd (setup_na e opts s)) = amplitude_stored (merge_options e opts s)"
  "input (snd (setup_na e opts s)) = input (merge_options e opts s)"
  "output_direct (snd (setup_na e opts s)) = output_direct (merge_options e opts s)"
  "acbandwidth (snd (setup_na e opts s)) = acbandwidth (merge_options e opts s)"
  "sleeptimes (snd (setup_na e opts s)) = sleeptimes (merge_options e opts s)"
  "logscale (snd (setup_na e opts s)) = logscale (merge_options e opts s)"
  "stabilize (snd (setup_na e opts s)) = stabilize (merge_options e opts s)"
  "maxamplitude (snd (setup_na e opts s)) = maxamplitude (merge_options e opts s)"
  by (simp_all add: setup_unfold split: sum.splits list.splits prod.splits)

lemma setup_na_bandwidth:
  "iq_bandwidth (iq (snd (setup_na e opts s))) = iq_bandwidth (iq (merge_options e opts s))
   \<or> (\<exists>b bs. iq_bandwidth (iq (merge_options e opts s)) = b # bs
         \<and> iq_bandwidth (iq (snd (setup_na e opts s))) = accept_bandwidth e (One b))"
  by (simp add: setup_unfold split: sum.splits list.splits prod.splits)

lemma setup_na_success:
  assumes "axis ((merge_options e opts s)\<lparr>setup_done := True\<rparr>) = Inr (x0 # xs)"
    and "iq_bandwidth (iq (merge_options e opts s)) = b # bs"
    and "accept_bandwidth e (One b) = b' # bs'"
    and "b' \<noteq> 0"
  shows "fst (setup_na e opts s) = Inr ()"
    and "x_axis (snd (setup_na e opts s)) = Some (x0 # xs)"
    and "current_point (snd (setup_na e opts s)) = Some 0"
    and "iq_bandwidth (iq (snd (setup_na e opts s))) = b' # bs'"
    and "time_last_point (snd (setup_na e opts s)) =
           Some (now (world s) + latency e (clock_reads (world s)))"
    and "rescale (snd (setup_na e opts s)) = Some (2 powi (- iq_LPFBITS (iq s)) * 4)"
    and "iq_frequency (iq (snd (setup_na e opts s))) = accept_frequency e x0"
    and "world (snd (setup_na e opts s)) =
           (world s)\<lparr>now := now (world s) + latency e (clock_reads (world s)),
                      clock_reads := Suc (clock_reads (world s))\<rparr>"
    and "iq_amplitude (iq (snd (setup_na e opts s))) =
           accept_amplitude e
             (if \<bar>amplitude_stored (merge_options e opts s)\<bar> > \<bar>maxamplitude (merge_options e opts s)\<bar>
              then \<bar>maxamplitude (merge_options e opts s)\<bar>
              else \<bar>amplitude_stored (merge_options e opts s)\<bar>)"
  using assms
  by (simp_all add: setup_unfold merge_world merge_LPFBITS
        split: sum.splits list.splits prod.splits)

lemma ideal_env_fields:
  "accept_frequency ideal_env (Finite v) = v" "accept_amplitude ideal_env v = v"
  "accept_bandwidth ideal_env (One v) = [v, v]" "accept_bandwidth ideal_env (Many l) = l"
  "raw_sample ideal_env k = Inr 1" "latency ideal_env k = 0"
  by (simp_all add: ideal_env_def)

lemma halving_env_fields:
  "accept_frequency halving_env (Finite v) = v" "accept_amplitude halving_env v = v"
  "accept_bandwidth halving_env (One v) = [v / 2, v / 2]"
  "accept_bandwidth halving_env (Many l) = l"
  "raw_sample halving_env k = Inr 1" "latency halving_env k = 0"
  by (simp_all add: halving_env_def ideal_env_def)

lemma na0_fields:
  "start na0 = 200" "stop na0 = 50000" "points na0 = 1001" "avg na0 = 1"
  "amplitude_stored na0 = 1 / 100" "sleeptimes na0 = 1 / 2" "logscale na0 = False"
  "stabilize na0 = Off" "maxamplitude na0 = 1" "iq_bandwidth (iq na0) = [200, 200]"
  "world na0 = host0" "iq_LPFBITS (iq na0) = 24" "x_axis na0 = None"
  "current_point na0 = None" "time_last_point na0 = None" "rescale na0 = None"
  by (simp_all add: na0_def init_def ideal_env_def blank_iq_def setter_defs)

lemma linspace_one: "linspace (Finite a) (Finite b) 1 = Inr [Finite a]"
  by (simp add: linspace_def np_sub_def)

lemma linspace_two: "linspace (Finite a) (Finite b) 2 = Inr [Finite a, Finite b]"
  by (simp add: linspace_def np_sub_def upt_conv_Cons Let_def)

text \<open>
  C9, as stated, fails for the option \<^verbatim>\<open>rbw\<close>: the field is the first bandwidth in the
  demodulator's register, and \<^verbatim>\<open>setup\<close> writes the value read back from it to the
  register again. On a demodulator that sets its filter to half of a bandwidth written
  as one number, \<^verbatim>\<open>setup(points=1)\<close>, with \<^verbatim>\<open>rbw=None\<close>, returns and changes
  \<^verbatim>\<open>rbw\<close> from 200 to 100.
\<close>

theorem setup_rewrites_bandwidth_counterexample:
  "opt_rbw one_point = None
   \<and> rbw (init halving_env blank_iq host0) = Inr 200
   \<and> fst (setup_na halving_env one_point (init halving_env blank_iq host0)) = Inr ()
   \<and> rbw (snd (setup_na halving_env one_point (init halving_env blank_iq host0))) = Inr 100"
proof -
  have ini: "start (init halving_env blank_iq host0) = 200"
    "stop (init halving_env blank_iq host0) = 50000"
    "logscale (init halving_env blank_iq host0) = False"
    "iq_bandwidth (iq (init halving_env blank_iq host0)) = [200, 200]"
    by (simp_all add: init_def setter_defs halving_env_fields)
  have ax: "axis ((merge_options halving_env one_point (init halving_env blank_iq host0))
              \<lparr>setup_done := True\<rparr>) = Inr (Finite 200 # [])"
    by (simp add: axis_def merge_fields one_point_def no_options_def ini linspace_one)
  have bw: "iq_bandwidth (iq (merge_options halving_env one_point (init halving_env blank_iq host0)))
              = 200 # [200]"
    by (simp add: merge_bandwidth one_point_def no_options_def ini)
  have acc: "accept_bandwidth halving_env (One 200) = 100 # [100]"
    by (simp add: halving_env_fields)
  have nz: "(100 :: real) \<noteq> 0"
    by simp
  note facts = setup_na_success[OF ax bw acc nz]
  from facts(1) facts(4) ini(4) show ?thesis
    by (simp add: rbw_def one_point_def no_options_def)
qed

text \<open>
  C9, amended. After a call of \<^verbatim>\<open>setup\<close>, whether it returns or raises, every
  configuration field other than \<^verbatim>\<open>rbw\<close> has its old value if its option was
  \<^verbatim>\<open>None\<close> and the value of its option otherwise (for \<^verbatim>\<open>amplitude\<close>: the value the
  demodulator accepted for it). With \<^verbatim>\<open>rbw=v\<close> the demodulator's bandwidth register
  holds what it accepted for the filter list made of \<open>v\<close>, or what it accepted for the
  first bandwidth read back from that. Provided the demodulator accepts the first
  bandwidth it reads back as it is, \<^verbatim>\<open>rbw\<close> is unchanged by \<^verbatim>\<open>rbw=None\<close> and is the
  first accepted bandwidth of \<open>v\<close> otherwise.
\<close>

theorem setup_merges_options:
  assumes "setup_na e opts s = (r, s')"
  shows "start s' = (case opt_start opts of None \<Rightarrow> start s | Some v \<Rightarrow> v)
       \<and> stop s' = (case opt_stop opts of None \<Rightarrow> stop s | Some v \<Rightarrow> v)
       \<and> points s' = (case opt_points opts of None \<Rightarrow> points s | Some v \<Rightarrow> v)
       \<and> avg s' = (case opt_avg opts of None \<Rightarrow> avg s | Some v \<Rightarrow> v)
       \<and> amplitude s' =
           (case opt_amplitude opts of None \<Rightarrow> amplitude s | Some v \<Rightarrow> accept_amplitude e v)
       \<and> input s' = (case opt_input opts of None \<Rightarrow> input s | Some v \<Rightarrow> v)
       \<and> output_direct s' =
           (case opt_output_direct opts of None \<Rightarrow> output_direct s | Some v \<Rightarrow> v)
       \<and> acbandwidth s' = (case opt_acbandwidth opts of None \<Rightarrow> acbandwidth s | Some v \<Rightarrow> v)
       \<and> sleeptimes s' = (case opt_sleeptimes opts of None \<Rightarrow> sleeptimes s | Some v \<Rightarrow> v)
       \<and> logscale s' = (case opt_logscale opts of None \<Rightarrow> logscale s | Some v \<Rightarrow> v)
       \<and> stabilize s' = (case opt_stabilize opts of None \<Rightarrow> stabilize s | Some v \<Rightarrow> v)
       \<and> maxamplitude s' =
           (case opt_maxamplitude opts of None \<Rightarrow> maxamplitude s | Some v \<Rightarrow> v)
       \<and> (opt_rbw opts = None
            \<longrightarrow> (\<forall>b bs. iq_bandwidth (iq s) = b # bs \<longrightarrow>
                   (\<exists>bs'. accept_bandwidth e (One b) = b # bs'))
            \<longrightarrow> rbw s' = rbw s)
       \<and> (\<forall>v. opt_rbw opts = Some v \<longrightarrow>
             iq_bandwidth (iq s')
               = accept_bandwidth e (Many (case v of Many l \<Rightarrow> l | One x \<Rightarrow> [x, x]))
             \<or> (\<exists>b bs. accept_bandwidth e (Many (case v of Many l \<Rightarrow> l | One x \<Rightarrow> [x, x])) = b # bs
                  \<and> iq_bandwidth (iq s') = accept_bandwidth e (One b)))
       \<and> (\<forall>v. opt_rbw opts = Some v
            \<longrightarrow> (\<forall>b bs. accept_bandwidth e (Many (case v of Many l \<Rightarrow> l | One x \<Rightarrow> [x, x])) = b # bs
                   \<longrightarrow> (\<exists>bs'. accept_bandwidth e (One b) = b # bs'))
            \<longrightarrow> rbw s' =
                  (case accept_bandwidth e (Many (case v of Many l \<Rightarrow> l | One x \<Rightarrow> [x, x])) of
                     [] \<Rightarrow> Inl IndexError
                   | b # _ \<Rightarrow> Inr b))"
proof -
  have s': "s' = snd (setup_na e opts s)"
    using assms by simp
  have cfg: "start s' = (case opt_start opts of None \<Rightarrow> start s | Some v \<Rightarrow> v)"
    "stop s' = (case opt_stop opts of None \<Rightarrow> stop s | Some v \<Rightarrow> v)"
    "points s' = (case opt_points opts of None \<Rightarrow> points s | Some v \<Rightarrow> v)"
    "avg s' = (case opt_avg opts of None \<Rightarrow> avg s | Some v \<Rightarrow> v)"
    "amplitude s' =
       (case opt_amplitude opts of None \<Rightarrow> amplitude s | Some v \<Rightarrow> accept_amplitude e v)"
    "input s' = (case opt_input opts of None \<Rightarrow> input s | Some v \<Rightarrow> v)"
    "output_direct s' = (case opt_output_direct opts of None \<Rightarrow> output_direct s | Some v \<Rightarrow> v)"
    "acbandwidth s' = (case opt_acbandwidth opts of None \<Rightarrow> acbandwidth s | Some v \<Rightarrow> v)"
    "sleeptimes s' = (case opt_sleeptimes opts of None \<Rightarrow> sleeptimes s | Some v \<Rightarrow> v)"
    "logscale s' = (case opt_logscale opts of None \<Rightarrow> logscale s | Some v \<Rightarrow> v)"
    "stabilize s' = (case opt_stabilize opts of None \<Rightarrow> stabilize s | Some v \<Rightarrow> v)"
    "maxamplitude s' = (case opt_maxamplitude opts of None \<Rightarrow> maxamplitude s | Some v \<Rightarrow> v)"
    unfolding s' amplitude_def by (simp_all only: setup_na_config merge_fields)
  define pushed where "pushed = iq_bandwidth (iq (merge_options e opts s))"
  have reg: "iq_bandwidth (iq s') = pushed
        \<or> (\<exists>b bs. pushed = b # bs \<and> iq_bandwidth (iq s') = accept_bandwidth e (One b))"
    unfolding s' pushed_def by (rule setup_na_bandwidth)
  have first: "rbw s' = (case pushed of [] \<Rightarrow> Inl IndexError | b # _ \<Rightarrow> Inr b)"
    if idem: "\<forall>b bs. pushed = b # bs \<longrightarrow> (\<exists>bs'. accept_bandwidth e (One b) = b # bs')"
    using reg
  proof
    assume "iq_bandwidth (iq s') = pushed"
    then show ?thesis by (simp add: rbw_def)
  next
    assume "\<exists>b bs. pushed = b # bs \<and> iq_bandwidth (iq s') = accept_bandwidth e (One b)"
    then obtain b bs where b: "pushed = b # bs"
      "iq_bandwidth (iq s') = accept_bandwidth e (One b)"
      by blast
    with idem obtain bs' where "accept_bandwidth e (One b) = b # bs'"
      by blast
    with b show ?thesis by (simp add: rbw_def)
  qed
  have none: "rbw s' = rbw s"
    if "opt_rbw opts = None"
      and "\<forall>b bs. iq_bandwidth (iq s) = b # bs \<longrightarrow> (\<exists>bs'. accept_bandwidth e (One b) = b # bs')"
  proof -
    from that(1) have "pushed = iq_bandwidth (iq s)"
      by (simp add: pushed_def merge_bandwidth)
    with first that(2) show ?thesis
      by (simp add: rbw_def)
  qed
  have some: "pushed = accept_bandwidth e (Many (case v of Many l \<Rightarrow> l | One x \<Rightarrow> [x, x]))"
    if "opt_rbw opts = Some v" for v
    using that by (simp add: pushed_def merge_bandwidth)
  have c1: "opt_rbw opts = None
            \<longrightarrow> (\<forall>b bs. iq_bandwidth (iq s) = b # bs \<longrightarrow>
                   (\<exists>bs'. accept_bandwidth e (One b) = b # bs'))
            \<longrightarrow> rbw s' = rbw s"
    using none by blast
  have c2: "\<forall>v. opt_rbw opts = Some v \<longrightarrow>
             iq_bandwidth (iq s')
               = accept_bandwidth e (Many (case v of Many l \<Rightarrow> l | One x \<Rightarrow> [x, x]))
             \<or> (\<exists>b bs. accept_bandwidth e (Many (case v of Many l \<Rightarrow> l | One x \<Rightarrow> [x, x])) = b # bs
                  \<and> iq_bandwidth (iq s') = accept_bandwidth e (One b))"
  proof (intro allI impI)
    fix v assume "opt_rbw opts = Some v"
    from some[OF this] reg
    show "iq_bandwidth (iq s')
               = accept_bandwidth e (Many (case v of Many l \<Rightarrow> l | One x \<Rightarrow> [x, x]))
             \<or> (\<exists>b bs. accept_bandwidth e (Many (case v of Many l \<Rightarrow> l | One x \<Rightarrow> [x, x])) = b # bs
                  \<and> iq_bandwidth (iq s') = accept_bandwidth e (One b))"
      by simp
  qed
  have c3: "\<forall>v. opt_rbw opts = Some v
            \<longrightarrow> (\<forall>b bs. accept_bandwidth e (Many (case v of Many l \<Rightarrow> l | One x \<Rightarrow> [x, x])) = b # bs
                   \<longrightarrow> (\<exists>bs'. accept_bandwidth e (One b) = b # bs'))
            \<longrightarrow> rbw s' =
                  (case accept_bandwidth e (Many (case v of Many l \<Rightarrow> l | One x \<Rightarrow> [x, x])) of
                     [] \<Rightarrow> Inl IndexError
                   | b # _ \<Rightarrow> Inr b)"
  proof (intro allI impI)
    fix v
    assume v: "opt_rbw opts = Some v"
      and "\<forall>b bs. accept_bandwidth e (Many (case v of Many l \<Rightarrow> l | One x \<Rightarrow> [x, x])) = b # bs
                   \<longrightarrow> (\<exists>bs'. accept_bandwidth e (One b) = b # bs')"
    with first some[OF v]
    show "rbw s' =
                  (case accept_bandwidth e (Many (case v of Many l \<Rightarrow> l | One x \<Rightarrow> [x, x])) of
                     [] \<Rightarrow> Inl IndexError
                   | b # _ \<Rightarrow> Inr b)"
      by simp
  qed
  show ?thesis
    by (intro conjI) (rule cfg c1 c2 c3)+
qed

theorem setup_merges_options_witness:
  "stop (snd (setup_na ideal_env (no_options\<lparr>opt_stop := Some 300\<rparr>) na0)) = 300
   \<and> start (snd (setup_na ideal_env (no_options\<lparr>opt_stop := Some 300\<rparr>) na0)) = 200
   \<and> rbw (snd (setup_na ideal_env (no_options\<lparr>opt_stop := Some 300\<rparr>) na0)) = Inr 200
   \<and> rbw (snd (setup_na ideal_env finer_filter na0)) = Inr 100"
proof -
  have a: "rbw (snd (setup_na ideal_env finer_filter na0)) = Inr 100"
    using setup_merges_options[OF prod.collapse[symmetric], of ideal_env finer_filter na0]
    by (simp add: finer_filter_def no_options_def ideal_env_fields)
  have b: "stop (snd (setup_na ideal_env (no_options\<lparr>opt_stop := Some 300\<rparr>) na0)) = 300
   \<and> start (snd (setup_na ideal_env (no_options\<lparr>opt_stop := Some 300\<rparr>) na0)) = 200
   \<and> rbw (snd (setup_na ideal_env (no_options\<lparr>opt_stop := Some 300\<rparr>) na0)) = Inr 200"
    using setup_merges_options[OF prod.collapse[symmetric],
      of ideal_env "no_options\<lparr>opt_stop := Some 300\<rparr>" na0]
    by (simp add: no_options_def na0_fields rbw_def ideal_env_fields)
  from a b show ?thesis by simp
qed

subsection \<open>The frequency axis\<close>

lemma linspace_finite_nth:
  assumes "linspace (Finite a) (Finite b) num = Inr ys"
  shows "int (length ys) = num"
    and "i < length ys \<Longrightarrow> ys ! i = Finite (a + of_nat i * ((b - a) / of_int (num - 1)))"
proof -
  from assms have num: "0 \<le> num"
    by (simp add: linspace_def split: if_splits)
  from assms num show len: "int (length ys) = num"
    by (auto simp: linspace_def Let_def split: if_splits)
  assume i: "i < length ys"
  show "ys ! i = Finite (a + of_nat i * ((b - a) / of_int (num - 1)))"
  proof (cases "1 < nat num")
    case True
    then have dv: "0 < num - 1" "(of_int (num - 1) :: real) \<noteq> 0"
      by simp_all
    have ys: "ys = (map (\<lambda>i. Finite (of_nat i * ((b - a) / of_int (num - 1)) + a)) [0..<nat num])
                     [nat num - 1 := Finite b]"
    proof (cases "b = a")
      case True
      with assms num \<open>1 < nat num\<close> show ?thesis
        by (simp add: linspace_def Let_def np_sub_def comp_def)
    next
      case False
      with assms num \<open>1 < nat num\<close> dv show ?thesis
        by (simp add: linspace_def Let_def np_sub_def comp_def)
    qed
    have n1: "real (nat num - 1) = of_int (num - 1)"
      using True by (simp add: of_nat_diff)
    show ?thesis
    proof (cases "i = nat num - 1")
      case True
      with i ys n1 \<open>1 < nat num\<close> show ?thesis
        by (simp add: nth_list_update)
    next
      case False
      with i ys show ?thesis
        by (simp add: nth_list_update add.commute)
    qed
  next
    case False
    with len i have "i = 0" and "num = 1" by linarith+
    with assms show ?thesis
      by (auto simp: linspace_def Let_def np_sub_def)
  qed
qed

lemma logspace_finite_nth:
  assumes "logspace (Finite a) (Finite b) num = Inr ys"
  shows "int (length ys) = num"
    and "i < length ys \<Longrightarrow>
           ys ! i = Finite (10 powr (a + of_nat i * ((b - a) / of_int (num - 1))))"
proof -
  from assms obtain zs where zs: "linspace (Finite a) (Finite b) num = Inr zs"
    and ys: "ys = map np_power10 zs"
    by (auto simp: logspace_def split: sum.splits)
  from linspace_finite_nth(1)[OF zs] ys show "int (length ys) = num" by simp
  assume "i < length ys"
  with ys linspace_finite_nth(2)[OF zs, of i]
  show "ys ! i = Finite (10 powr (a + of_nat i * ((b - a) / of_int (num - 1))))"
    by simp
qed

lemma arith_progression_mono:
  fixes a d :: real
  assumes "\<And>i. i < length xs \<Longrightarrow> xs ! i = a + of_nat i * d"
  shows "0 \<le> d \<Longrightarrow> sorted xs" and "d \<le> 0 \<Longrightarrow> sorted (rev xs)"
proof -
  assume d: "0 \<le> d"
  show "sorted xs"
    unfolding sorted_iff_nth_mono
  proof (intro allI impI)
    fix i j assume ij: "i \<le> j" "j < length xs"
    then have "real i * d \<le> real j * d"
      using d by (simp add: mult_right_mono)
    with ij assms show "xs ! i \<le> xs ! j" by simp
  qed
next
  assume d: "d \<le> 0"
  show "sorted (rev xs)"
    unfolding sorted_rev_iff_nth_mono
  proof (intro allI impI)
    fix i j assume ij: "i \<le> j" "j < length xs"
    then have "real j * d \<le> real i * d"
      using d by (simp add: mult_right_mono_neg)
    with ij assms show "xs ! j \<le> xs ! i" by simp
  qed
qed


lemma axis_fields:
  "logscale s' = logscale s \<Longrightarrow> start s' = start s \<Longrightarrow> stop s' = stop s \<Longrightarrow>
     points s' = points s \<Longrightarrow> axis s' = axis s"
  by (simp add: axis_def)

lemma setup_na_axis:
  assumes "setup_na e opts s = (r, s')" and "axis s' = Inr ys"
  shows "x_axis s' = Some ys"
proof -
  have s': "s' = snd (setup_na e opts s)"
    using assms by simp
  have same: "axis s' = axis ((merge_options e opts s)\<lparr>setup_done := True\<rparr>)"
    unfolding s' by (rule axis_fields) (simp_all add: setup_na_config)
  with assms(2) have "axis ((merge_options e opts s)\<lparr>setup_done := True\<rparr>) = Inr ys"
    by simp
  with assms(1) show ?thesis
    by (auto simp: setup_unfold split: sum.splits list.splits prod.splits)
qed

lemma finite_list:
  assumes "\<And>i. i < length ys \<Longrightarrow> ys ! i = Finite (f i)"
  shows "\<exists>xs. ys = map Finite xs \<and> length xs = length ys \<and> (\<forall>i < length xs. xs ! i = f i)"
proof (intro exI[of _ "map f [0..<length ys]"] conjI)
  show "ys = map Finite (map f [0..<length ys])"
    using assms by (intro nth_equalityI) simp_all
qed simp_all

lemma axis_linear:
  assumes "axis c = Inr ys" and "\<not> logscale c"
  shows "\<exists>xs. ys = map Finite xs \<and> int (length xs) = points c
           \<and> (\<forall>i < length xs.
                 xs ! i = start c + of_nat i * ((stop c - start c) / of_int (points c - 1)))"
proof -
  from assms have l: "linspace (Finite (start c)) (Finite (stop c)) (points c) = Inr ys"
    by (simp add: axis_def)
  have "\<And>i. i < length ys \<Longrightarrow>
          ys ! i = Finite (start c + of_nat i * ((stop c - start c) / of_int (points c - 1)))"
    by (rule linspace_finite_nth(2)[OF l])
  from finite_list[of ys "\<lambda>i. start c + of_nat i * ((stop c - start c) / of_int (points c - 1))",
      OF this]
  obtain xs where xs: "ys = map Finite xs" "length xs = length ys"
    "\<forall>i < length xs.
        xs ! i = start c + of_nat i * ((stop c - start c) / of_int (points c - 1))"
    by blast
  have "int (length xs) = points c"
    unfolding xs(2) by (rule linspace_finite_nth(1)[OF l])
  with xs(1,3) show ?thesis
    by blast
qed

lemma axis_logarithmic:
  assumes "axis c = Inr ys" and "logscale c" and "0 < start c" and "0 < stop c"
  shows "\<exists>xs. ys = map Finite xs \<and> int (length xs) = points c
           \<and> (\<forall>i < length xs.
                 xs ! i = 10 powr (log 10 (start c)
                            + of_nat i * ((log 10 (stop c) - log 10 (start c))
                                            / of_int (points c - 1))))"
proof -
  from assms
  have l: "logspace (Finite (log 10 (start c))) (Finite (log 10 (stop c))) (points c) = Inr ys"
    by (simp add: axis_def log10_def)
  have "\<And>i. i < length ys \<Longrightarrow>
          ys ! i = Finite (10 powr (log 10 (start c)
                            + of_nat i * ((log 10 (stop c) - log 10 (start c))
                                            / of_int (points c - 1))))"
    by (rule logspace_finite_nth(2)[OF l])
  from finite_list[of ys "\<lambda>i. 10 powr (log 10 (start c)
                            + of_nat i * ((log 10 (stop c) - log 10 (start c))
                                            / of_int (points c - 1)))", OF this]
  obtain xs where xs: "ys = map Finite xs" "length xs = length ys"
    "\<forall>i < length xs.
        xs ! i = 10 powr (log 10 (start c)
                   + of_nat i * ((log 10 (stop c) - log 10 (start c)) / of_int (points c - 1)))"
    by blast
  have "int (length xs) = points c"
    unfolding xs(2) by (rule logspace_finite_nth(1)[OF l])
  with xs(1,3) show ?thesis
    by blast
qed

lemma axis_shape:
  assumes ax: "axis c = Inr ys" and ne: "1 \<le> points c"
    and val: "logscale c \<longrightarrow> 0 < start c \<and> 0 < stop c"
  shows "\<exists>xs. ys = map Finite xs \<and> int (length xs) = points c \<and> hd xs = start c
     \<and> (2 \<le> points c \<longrightarrow> last xs = stop c)
     \<and> (start c \<le> stop c \<longrightarrow> sorted xs)
     \<and> (stop c \<le> start c \<longrightarrow> sorted (rev xs))
     \<and> (\<not> logscale c \<longrightarrow>
          (\<forall>i. Suc i < length xs \<longrightarrow>
             xs ! Suc i - xs ! i = (stop c - start c) / of_int (points c - 1)))
     \<and> (logscale c \<longrightarrow>
          (\<forall>i. Suc i < length xs \<longrightarrow>
             log 10 (xs ! Suc i) - log 10 (xs ! i)
               = (log 10 (stop c) - log 10 (start c)) / of_int (points c - 1)))"
proof (cases "logscale c")
  case False
  define k :: real where "k = of_int (points c - 1)"
  define d where "d = (stop c - start c) / k"
  from axis_linear[OF ax False] obtain xs where
    ys: "ys = map Finite xs" and len: "int (length xs) = points c"
    and nth: "\<And>i. i < length xs \<Longrightarrow> xs ! i = start c + of_nat i * d"
    unfolding d_def k_def by blast
  from len ne have ne: "xs \<noteq> []"
    by auto
  have first: "hd xs = start c"
    using ne nth[of 0] by (simp add: hd_conv_nth)
  have lastx: "last xs = stop c" if "2 \<le> points c"
  proof -
    have lk: "real (length xs - 1) = k" and "k \<noteq> 0"
      using len that by (simp_all add: k_def of_nat_diff)
    then have kd: "k * d = stop c - start c"
      by (simp add: d_def)
    have "length xs - 1 < length xs"
      using ne by simp
    from nth[OF this] have "xs ! (length xs - 1) = start c + k * d"
      unfolding lk .
    with kd ne show ?thesis
      by (simp add: last_conv_nth)
  qed
  have up: "sorted xs" if "start c \<le> stop c"
  proof (cases "2 \<le> points c")
    case True
    with that have "0 \<le> d" by (simp add: d_def k_def)
    then show ?thesis using arith_progression_mono(1)[of xs "start c" d] nth by blast
  next
    case False
    with len have "length xs \<le> 1" by linarith
    then show ?thesis by (cases xs) auto
  qed
  have down: "sorted (rev xs)" if "stop c \<le> start c"
  proof (cases "2 \<le> points c")
    case True
    with that have "d \<le> 0" by (simp add: d_def k_def divide_nonpos_pos)
    then show ?thesis using arith_progression_mono(2)[of xs "start c" d] nth by blast
  next
    case False
    with len have "length xs \<le> 1" by linarith
    then show ?thesis by (cases xs) auto
  qed
  have diff: "xs ! Suc i - xs ! i = d" if "Suc i < length xs" for i
    using that nth[of i] nth[of "Suc i"] by (simp add: algebra_simps)
  from False ys len first lastx up down diff show ?thesis
    unfolding d_def k_def by blast
next
  case True
  define k :: real where "k = of_int (points c - 1)"
  define la d where "la = log 10 (start c)"
    and "d = (log 10 (stop c) - log 10 (start c)) / k"
  have pos: "0 < start c" "0 < stop c"
    using val True by simp_all
  from axis_logarithmic[OF ax True pos] obtain xs where
    ys: "ys = map Finite xs" and len: "int (length xs) = points c"
    and nth: "\<And>i. i < length xs \<Longrightarrow> xs ! i = 10 powr (la + of_nat i * d)"
    unfolding la_def d_def k_def by blast
  from len ne have ne: "xs \<noteq> []"
    by auto
  have first: "hd xs = start c"
    using ne nth[of 0] pos by (simp add: hd_conv_nth la_def)
  have lastx: "last xs = stop c" if "2 \<le> points c"
  proof -
    have lk: "real (length xs - 1) = k" and "k \<noteq> 0"
      using len that by (simp_all add: k_def of_nat_diff)
    then have kd: "la + k * d = log 10 (stop c)"
      by (simp add: d_def la_def)
    have "length xs - 1 < length xs"
      using ne by simp
    from nth[OF this] have "xs ! (length xs - 1) = 10 powr (la + k * d)"
      unfolding lk .
    with kd ne pos show ?thesis
      by (simp add: last_conv_nth)
  qed
  have up: "sorted xs" if "start c \<le> stop c"
  proof (cases "2 \<le> points c")
    case True
    with that pos have d: "0 \<le> d" by (simp add: d_def k_def)
    show ?thesis
      unfolding sorted_iff_nth_mono
    proof (intro allI impI)
      fix i j assume ij: "i \<le> j" "j < length xs"
      then have "real i * d \<le> real j * d"
        using d by (simp add: mult_right_mono)
      with ij nth show "xs ! i \<le> xs ! j" by simp
    qed
  next
    case False
    with len have "length xs \<le> 1" by linarith
    then show ?thesis by (cases xs) auto
  qed
  have down: "sorted (rev xs)" if "stop c \<le> start c"
  proof (cases "2 \<le> points c")
    case True
    with that pos have d: "d \<le> 0" by (simp add: d_def k_def divide_nonpos_pos)
    show ?thesis
      unfolding sorted_rev_iff_nth_mono
    proof (intro allI impI)
      fix i j assume ij: "i \<le> j" "j < length xs"
      then have "real j * d \<le> real i * d"
        using d by (simp add: mult_right_mono_neg)
      with ij nth show "xs ! j \<le> xs ! i" by simp
    qed
  next
    case False
    with len have "length xs \<le> 1" by linarith
    then show ?thesis by (cases xs) auto
  qed
  have diff: "log 10 (xs ! Suc i) - log 10 (xs ! i) = d" if "Suc i < length xs" for i
    using that nth[of i] nth[of "Suc i"] by (simp add: algebra_simps)
  from True ys len first lastx up down diff show ?thesis
    unfolding d_def k_def by blast
qed

lemma axis_total:
  assumes "0 \<le> points c"
  shows "\<exists>ys. axis c = Inr ys"
  using assms by (simp add: axis_def logspace_def linspace_def Let_def)

lemma setup_na0:
  assumes "opt_rbw opts = None" and "opt_logscale opts = None"
    and "linspace (Finite (case opt_start opts of None \<Rightarrow> 200 | Some v \<Rightarrow> v))
           (Finite (case opt_stop opts of None \<Rightarrow> 50000 | Some v \<Rightarrow> v))
           (case opt_points opts of None \<Rightarrow> 1001 | Some v \<Rightarrow> v) = Inr (x0 # xs)"
  shows "fst (setup_na ideal_env opts na0) = Inr ()"
    and "x_axis (snd (setup_na ideal_env opts na0)) = Some (x0 # xs)"
    and "current_point (snd (setup_na ideal_env opts na0)) = Some 0"
    and "iq_bandwidth (iq (snd (setup_na ideal_env opts na0))) = [200, 200]"
    and "time_last_point (snd (setup_na ideal_env opts na0)) = Some 0"
    and "rescale (snd (setup_na ideal_env opts na0)) = Some (2 powi (- 24) * 4)"
    and "iq_frequency (iq (snd (setup_na ideal_env opts na0))) = accept_frequency ideal_env x0"
    and "world (snd (setup_na ideal_env opts na0)) = host0\<lparr>clock_reads := 1\<rparr>"
    and "iq_amplitude (iq (snd (setup_na ideal_env opts na0))) =
           (if \<bar>case opt_amplitude opts of None \<Rightarrow> 1 / 100 | Some v \<Rightarrow> v\<bar>
                 > \<bar>case opt_maxamplitude opts of None \<Rightarrow> 1 | Some v \<Rightarrow> v\<bar>
            then \<bar>case opt_maxamplitude opts of None \<Rightarrow> 1 | Some v \<Rightarrow> v\<bar>
            else \<bar>case opt_amplitude opts of None \<Rightarrow> 1 / 100 | Some v \<Rightarrow> v\<bar>)"
proof -
  have ax: "axis ((merge_options ideal_env opts na0)\<lparr>setup_done := True\<rparr>) = Inr (x0 # xs)"
    using assms by (simp add: axis_def merge_fields na0_fields cong: option.case_cong)
  have bw: "iq_bandwidth (iq (merge_options ideal_env opts na0)) = 200 # [200]"
    using assms(1) by (simp add: merge_bandwidth na0_fields)
  have acc: "accept_bandwidth ideal_env (One 200) = 200 # [200]"
    by (simp add: ideal_env_def)
  have nz: "(200 :: real) \<noteq> 0"
    by simp
  note facts = setup_na_success[OF ax bw acc nz]
  show "fst (setup_na ideal_env opts na0) = Inr ()"
    by (rule facts(1))
  show "x_axis (snd (setup_na ideal_env opts na0)) = Some (x0 # xs)"
    by (rule facts(2))
  show "current_point (snd (setup_na ideal_env opts na0)) = Some 0"
    by (rule facts(3))
  show "iq_bandwidth (iq (snd (setup_na ideal_env opts na0))) = [200, 200]"
    by (rule facts(4))
  show "time_last_point (snd (setup_na ideal_env opts na0)) = Some 0"
    using facts(5) by (simp add: na0_fields host0_def ideal_env_def)
  show "rescale (snd (setup_na ideal_env opts na0)) = Some (2 powi (- 24) * 4)"
    using facts(6) by (simp add: na0_fields)
  show "iq_frequency (iq (snd (setup_na ideal_env opts na0))) = accept_frequency ideal_env x0"
    by (rule facts(7))
  show "world (snd (setup_na ideal_env opts na0)) = host0\<lparr>clock_reads := 1\<rparr>"
    using facts(8) by (simp add: na0_fields host0_def ideal_env_def)
  show "iq_amplitude (iq (snd (setup_na ideal_env opts na0))) =
           (if \<bar>case opt_amplitude opts of None \<Rightarrow> 1 / 100 | Some v \<Rightarrow> v\<bar>
                 > \<bar>case opt_maxamplitude opts of None \<Rightarrow> 1 | Some v \<Rightarrow> v\<bar>
            then \<bar>case opt_maxamplitude opts of None \<Rightarrow> 1 | Some v \<Rightarrow> v\<bar>
            else \<bar>case opt_amplitude opts of None \<Rightarrow> 1 / 100 | Some v \<Rightarrow> v\<bar>)"
    unfolding facts(9)
    by (simp add: merge_fields na0_fields ideal_env_def cong: option.case_cong)
qed

lemma setup_na0_ok:
  assumes "fst (setup_na ideal_env opts na0) = Inr ()"
  shows "setup_na ideal_env opts na0 = (Inr (), snd (setup_na ideal_env opts na0))"
  using assms by (simp add: prod_eq_iff)

text \<open>
  With a logarithmic axis that starts at 0, \<^verbatim>\<open>np.log10\<close> gives minus infinity and the
  axis holds nan; \<^verbatim>\<open>setup\<close> returns all the same.
\<close>

lemma log_axis_from_zero:
  "fst (setup_na ideal_env log_from_zero na0) = Inr ()
   \<and> x_axis (snd (setup_na ideal_env log_from_zero na0)) = Some [NaN, NaN, Finite 1000]"
proof -
  have l: "log 10 1000 = 3"
    using log_pow_cancel[of 10 3] by simp
  have p: "(10 :: real) powr 3 = 1000"
    by simp
  have lin: "linspace NegInf (Finite 3) 3 = Inr [NaN, NaN, Finite 3]"
    by (simp add: linspace_def Let_def np_sub_def signed_inf_def upt_conv_Cons)
  have ax: "axis ((merge_options ideal_env log_from_zero na0)\<lparr>setup_done := True\<rparr>)
              = Inr (NaN # [NaN, Finite 1000])"
    by (simp add: axis_def merge_fields log_from_zero_def no_options_def log10_def l
          logspace_def lin p)
  have bw: "iq_bandwidth (iq (merge_options ideal_env log_from_zero na0)) = 200 # [200]"
    by (simp add: merge_bandwidth log_from_zero_def no_options_def na0_fields)
  have acc: "accept_bandwidth ideal_env (One 200) = 200 # [200]"
    by (simp add: ideal_env_fields)
  have nz: "(200 :: real) \<noteq> 0"
    by simp
  from setup_na_success(1,2)[OF ax bw acc nz] show ?thesis
    by simp
qed

text \<open>
  C4, as stated, fails: with one point the axis is \<^verbatim>\<open>[start]\<close>, whose last element is not
  \<^verbatim>\<open>stop\<close>. The analyzer as constructed (start 200, stop 50000) and set up with
  \<^verbatim>\<open>points=1\<close> has the axis \<^verbatim>\<open>[200]\<close>.
\<close>

theorem axis_one_point_counterexample:
  "fst (setup_na ideal_env (no_options\<lparr>opt_points := Some 1\<rparr>) na0) = Inr ()
   \<and> x_axis (snd (setup_na ideal_env (no_options\<lparr>opt_points := Some 1\<rparr>) na0))
       = Some (map Finite [200])
   \<and> points (snd (setup_na ideal_env (no_options\<lparr>opt_points := Some 1\<rparr>) na0)) = 1
   \<and> logscale (snd (setup_na ideal_env (no_options\<lparr>opt_points := Some 1\<rparr>) na0)) = False
   \<and> stop (snd (setup_na ideal_env (no_options\<lparr>opt_points := Some 1\<rparr>) na0)) = 50000
   \<and> last [200 :: real] \<noteq> 50000"
proof -
  have "fst (setup_na ideal_env (no_options\<lparr>opt_points := Some 1\<rparr>) na0) = Inr ()"
    and "x_axis (snd (setup_na ideal_env (no_options\<lparr>opt_points := Some 1\<rparr>) na0))
           = Some [Finite 200]"
    by (rule setup_na0; simp add: no_options_def linspace_one)+
  then show ?thesis
    by (simp add: setup_na_config merge_fields no_options_def na0_fields)
qed

text \<open>
  C4, amended. For every configuration with at least one point, and with positive
  \<^verbatim>\<open>start\<close> and \<^verbatim>\<open>stop\<close> if the axis is logarithmic, after a call of \<^verbatim>\<open>setup\<close>
  (whether it returns or raises later on): the axis consists of \<^verbatim>\<open>points\<close> numbers and
  starts at \<^verbatim>\<open>start\<close>; it ends at \<^verbatim>\<open>stop\<close> when there are at least two points; it
  ascends when \<^verbatim>\<open>start \<le> stop\<close> and descends when \<^verbatim>\<open>stop \<le> start\<close>; on a linear axis
  consecutive elements differ by \<^verbatim>\<open>(stop - start) / (points - 1)\<close>; on a logarithmic
  axis the logarithms of consecutive elements differ by
  \<^verbatim>\<open>(log10 stop - log10 start) / (points - 1)\<close>.
\<close>

theorem frequency_axis_shape:
  assumes "setup_na e opts s = (r, s')"
    and "1 \<le> points s'"
    and "logscale s' \<longrightarrow> 0 < start s' \<and> 0 < stop s'"
  shows "\<exists>xs. x_axis s' = Some (map Finite xs) \<and> int (length xs) = points s'
     \<and> hd xs = start s'
     \<and> (2 \<le> points s' \<longrightarrow> last xs = stop s')
     \<and> (start s' \<le> stop s' \<longrightarrow> sorted xs)
     \<and> (stop s' \<le> start s' \<longrightarrow> sorted (rev xs))
     \<and> (\<not> logscale s' \<longrightarrow>
          (\<forall>i. Suc i < length xs \<longrightarrow>
             xs ! Suc i - xs ! i = (stop s' - start s') / of_int (points s' - 1)))
     \<and> (logscale s' \<longrightarrow>
          (\<forall>i. Suc i < length xs \<longrightarrow>
             log 10 (xs ! Suc i) - log 10 (xs ! i)
               = (log 10 (stop s') - log 10 (start s')) / of_int (points s' - 1)))"
proof -
  from assms(2) axis_total[of s'] obtain ys where ax: "axis s' = Inr ys"
    by auto
  from setup_na_axis[OF assms(1) ax] have x: "x_axis s' = Some ys" .
  from axis_shape[OF ax assms(2,3)] x show ?thesis
    by auto
qed

theorem frequency_axis_shape_witness:
  "\<exists>xs. x_axis (snd (setup_na ideal_env (no_options\<lparr>opt_points := Some 3\<rparr>) na0))
            = Some (map Finite xs)
     \<and> length xs = 3 \<and> hd xs = 200 \<and> last xs = 50000 \<and> sorted xs
     \<and> xs ! 1 - xs ! 0 = 24900 \<and> xs ! 2 - xs ! 1 = 24900"
proof -
  have cfg: "points (snd (setup_na ideal_env (no_options\<lparr>opt_points := Some 3\<rparr>) na0)) = 3"
    "start (snd (setup_na ideal_env (no_options\<lparr>opt_points := Some 3\<rparr>) na0)) = 200"
    "stop (snd (setup_na ideal_env (no_options\<lparr>opt_points := Some 3\<rparr>) na0)) = 50000"
    "logscale (snd (setup_na ideal_env (no_options\<lparr>opt_points := Some 3\<rparr>) na0)) = False"
    by (simp_all add: setup_na_config merge_fields no_options_def na0_fields)
  have valid: "1 \<le> points (snd (setup_na ideal_env (no_options\<lparr>opt_points := Some 3\<rparr>) na0))"
    "logscale (snd (setup_na ideal_env (no_options\<lparr>opt_points := Some 3\<rparr>) na0))
       \<longrightarrow> 0 < start (snd (setup_na ideal_env (no_options\<lparr>opt_points := Some 3\<rparr>) na0))
          \<and> 0 < stop (snd (setup_na ideal_env (no_options\<lparr>opt_points := Some 3\<rparr>) na0))"
    by (simp_all add: cfg)
  from frequency_axis_shape[OF prod.collapse[symmetric] valid] obtain xs where
    xs: "x_axis (snd (setup_na ideal_env (no_options\<lparr>opt_points := Some 3\<rparr>) na0))
           = Some (map Finite xs)"
      "int (length xs) = 3" "hd xs = 200" "last xs = 50000" "sorted xs"
      "\<forall>i. Suc i < length xs \<longrightarrow> xs ! Suc i - xs ! i = (50000 - 200) / of_int (3 - 1)"
    unfolding cfg by auto
  from xs(2) have len: "length xs = 3" by simp
  from xs(6) len have "xs ! Suc 0 - xs ! 0 = 24900" "xs ! Suc (Suc 0) - xs ! Suc 0 = 24900"
    by simp_all
  then have "xs ! 1 - xs ! 0 = 24900" "xs ! 2 - xs ! 1 = 24900"
    by (simp_all add: numeral_2_eq_2)
  with xs len show ?thesis by blast
qed

subsection \<open>The analyzer after \<^verbatim>\<open>setup(points=1)\<close>\<close>

lemma na1_armed:
  "fst (setup_na ideal_env one_point na0) = Inr ()"
  "x_axis na1 = Some [Finite 200]"
  "current_point na1 = Some 0"
  "iq_bandwidth (iq na1) = [200, 200]"
  "time_last_point na1 = Some 0"
  "rescale na1 = Some (2 powi (- 24) * 4)"
  "iq_frequency (iq na1) = 200"
  "world na1 = host0\<lparr>clock_reads := 1\<rparr>"
  using setup_na0[of one_point "Finite 200" "[]"]
  by (simp_all add: one_point_def no_options_def linspace_one ideal_env_fields na1_def)

lemma na1_config:
  "start na1 = 200" "stop na1 = 50000" "points na1 = 1" "avg na1 = 1"
  "amplitude_stored na1 = 1 / 100" "sleeptimes na1 = 1 / 2" "stabilize na1 = Off"
  "maxamplitude na1 = 1"
  unfolding na1_def
  by (simp_all add: setup_na_config merge_fields one_point_def no_options_def na0_fields)

subsection \<open>Fetching a point\<close>

lemmas get_unfold =
  get_current_point_def time_call_def time_per_point_def rbw_def sleep_def read_nadata_def
  amplitude_def Let_def

text \<open>
  C3. A point is fetched with the dwell time \<open>(avg + sleeptimes) / b\<close>, where \<open>b\<close> is the
  first bandwidth in the demodulator's register (after the \<^verbatim>\<open>rbw\<close> setter: the first
  bandwidth the demodulator accepted, not the one requested). With
  \<open>remaining = dwell time - (now - time_last_point)\<close>, the call sleeps once, for
  \<open>remaining\<close>, if \<open>0 \<le> remaining\<close>, and does not sleep otherwise; in both cases it goes
  on to read the sample, and it raises only if that read fails or no rescale factor
  exists.
\<close>

theorem get_current_point_paces:
  assumes "time_last_point s = Some tlast"
    and "iq_bandwidth (iq s) = b # bs"
    and "b \<noteq> 0"
    and "get_current_point e s = (r, s')"
    and "remaining = (avg s + sleeptimes s) / b
                       - (now (world s) + latency e (clock_reads (world s)) - tlast)"
  shows "time_per_point s = Inr ((avg s + sleeptimes s) / b)
     \<and> slept (world s') = slept (world s) @ (if 0 \<le> remaining then [remaining] else [])
     \<and> sample_reads (world s') = Suc (sample_reads (world s))
     \<and> (\<forall>err. r = Inl err \<longrightarrow>
           raw_sample e (sample_reads (world s)) = Inl err
           \<or> (rescale s = None \<and> err = AttributeError))
     \<and> time_per_point (rbw_set e (One v) s) =
          (case accept_bandwidth e (Many [v, v]) of
             [] \<Rightarrow> Inl IndexError
           | b' # _ \<Rightarrow> if b' = 0 then Inl ZeroDivisionError
                        else Inr ((avg s + sleeptimes s) / b'))"
proof -
  have tpp: "time_per_point s = Inr ((avg s + sleeptimes s) / b)"
    using assms(2,3) by (simp add: time_per_point_def rbw_def)
  have setter: "time_per_point (rbw_set e (One v) s) =
          (case accept_bandwidth e (Many [v, v]) of
             [] \<Rightarrow> Inl IndexError
           | b' # _ \<Rightarrow> if b' = 0 then Inl ZeroDivisionError
                        else Inr ((avg s + sleeptimes s) / b'))"
    by (simp add: time_per_point_def rbw_def rbw_set_def iq_set_bandwidth_def Let_def
          split: list.splits)
  have run: "slept (world s') = slept (world s) @ (if 0 \<le> remaining then [remaining] else [])"
    "sample_reads (world s') = Suc (sample_reads (world s))"
    "\<forall>err. r = Inl err \<longrightarrow>
           raw_sample e (sample_reads (world s)) = Inl err
           \<or> (rescale s = None \<and> err = AttributeError)"
    using assms by (auto simp: get_unfold split: sum.splits option.splits if_splits)
  from tpp setter run show ?thesis by blast
qed


theorem get_current_point_paces_witness:
  "time_per_point na1 = Inr (3 / 400)
   \<and> slept (world (snd (get_current_point ideal_env na1))) = [3 / 400]
   \<and> sample_reads (world (snd (get_current_point ideal_env na1))) = 1"
proof -
  have bw: "iq_bandwidth (iq na1) = 200 # [200]"
    by (simp add: na1_armed)
  have rem: "(3 / 400 :: real) =
      (avg na1 + sleeptimes na1) / 200
      - (now (world na1) + latency ideal_env (clock_reads (world na1)) - 0)"
    by (simp add: na1_armed na1_config host0_def ideal_env_def)
  show ?thesis
    using get_current_point_paces[where e=ideal_env and v=200,
        OF na1_armed(5) bw _ prod.collapse[symmetric] rem]
    by (simp add: na1_armed na1_config host0_def)
qed

text \<open>
  C5. When a point is fetched and the stored amplitude is exactly zero, the call returns
  the raw sample times the rescale factor; otherwise it returns that product divided by
  the amplitude. (The call returns when the analyzer is set up, the bandwidth read back
  is not zero and the demodulator delivers a sample.)
\<close>

theorem get_current_point_normalizes:
  assumes "time_last_point s = Some tlast"
    and "iq_bandwidth (iq s) = b # bs"
    and "b \<noteq> 0"
    and "rescale s = Some resc"
    and "raw_sample e (sample_reads (world s)) = Inr y"
  shows "fst (get_current_point e s) =
           Inr (iq_frequency (iq s),
                (if amplitude s = 0 then y * of_real resc
                 else y * of_real resc / of_real (amplitude s)),
                amplitude s)"
  using assms by (simp add: get_unfold)


theorem get_current_point_normalizes_witness:
  "fst (get_current_point ideal_env na1)
     = Inr (200, 1 * of_real (2 powi (- 24) * 4) / of_real (1 / 100), 1 / 100)
   \<and> fst (get_current_point ideal_env (snd (setup_na ideal_env zero_drive na0)))
     = Inr (200, 1 * of_real (2 powi (- 24) * 4), 0)"
proof -
  have bw: "iq_bandwidth (iq na1) = 200 # [200]"
    by (simp add: na1_armed)
  have smp: "raw_sample ideal_env (sample_reads (world na1)) = Inr 1"
    by (simp add: ideal_env_def)
  have z: "time_last_point (snd (setup_na ideal_env zero_drive na0)) = Some 0"
    "iq_bandwidth (iq (snd (setup_na ideal_env zero_drive na0))) = 200 # [200]"
    "rescale (snd (setup_na ideal_env zero_drive na0)) = Some (2 powi (- 24) * 4)"
    "iq_frequency (iq (snd (setup_na ideal_env zero_drive na0))) = 200"
    using setup_na0[of zero_drive "Finite 200" "[]"]
    by (simp_all add: zero_drive_def no_options_def linspace_one ideal_env_fields)
  have za: "amplitude_stored (snd (setup_na ideal_env zero_drive na0)) = 0"
    by (simp add: setup_na_config merge_fields zero_drive_def no_options_def
          ideal_env_def)
  have smp0: "raw_sample ideal_env (sample_reads (world (snd (setup_na ideal_env zero_drive na0))))
                = Inr 1"
    by (simp add: ideal_env_def)
  show ?thesis
    using get_current_point_normalizes[OF na1_armed(5) bw _ na1_armed(6) smp]
      get_current_point_normalizes[OF z(1) z(2) _ z(3) smp0]
    by (simp add: na1_armed na1_config amplitude_def z za)
qed

text \<open>
  C8, as stated, fails: on an analyzer that was constructed and never set up, fetching a
  point raises AttributeError (the attribute \<^verbatim>\<open>time_last_point\<close> does not exist), not
  the error that the module imports for an analyzer that is not ready.
\<close>

theorem fetch_before_setup_counterexample:
  "fst (get_current_point ideal_env na0) = Inl AttributeError
   \<and> fst (get_current_point ideal_env na0) \<noteq> Inl NotReadyError"
  by (simp add: get_unfold na0_fields)

text \<open>
  C8, amended. On an analyzer that was constructed and never set up, fetching a point
  raises AttributeError, and so does the first request to the generator \<^verbatim>\<open>values\<close>.
\<close>

theorem fetch_before_setup_raises_attribute_error:
  "fst (get_current_point e (init e q w)) = Inl AttributeError
   \<and> fst (values_next e Created (init e q w)) = Raised AttributeError"
  by (simp add: get_unfold values_next_def values_body_def handler_def finalizer_def
        log_info_def init_def setter_defs)

subsection \<open>Preparing the next point\<close>

lemma prepare_stabilized:
  "stabilize s = Target t \<Longrightarrow> prepare_for_next_point e y s = (Inl NameError, s)"
  by (simp add: prepare_for_next_point_def lookup_y_def)

lemma prepare_unstabilized_amplitude:
  assumes "stabilize s = Off"
  shows "iq_amplitude (iq (snd (prepare_for_next_point e y s))) =
           accept_amplitude e (if amplitude s > maxamplitude s then maxamplitude s else amplitude s)"
  using assms
  by (simp add: prepare_for_next_point_def time_call_def iq_set_amplitude_def
        iq_set_frequency_def Let_def split: option.splits)

lemma stabilized_armed:
  "fst (setup_na ideal_env stabilized na0) = Inr ()"
  "x_axis (snd (setup_na ideal_env stabilized na0)) = Some [Finite 200]"
  "current_point (snd (setup_na ideal_env stabilized na0)) = Some 0"
  "iq_bandwidth (iq (snd (setup_na ideal_env stabilized na0))) = [200, 200]"
  "time_last_point (snd (setup_na ideal_env stabilized na0)) = Some 0"
  "rescale (snd (setup_na ideal_env stabilized na0)) = Some (2 powi (- 24) * 4)"
  "iq_frequency (iq (snd (setup_na ideal_env stabilized na0))) = 200"
  "world (snd (setup_na ideal_env stabilized na0)) = host0\<lparr>clock_reads := 1\<rparr>"
  using setup_na0[of stabilized "Finite 200" "[]"]
  by (simp_all add: stabilized_def no_options_def linspace_one ideal_env_fields)

lemma stabilized_config:
  "start (snd (setup_na ideal_env stabilized na0)) = 200"
  "stop (snd (setup_na ideal_env stabilized na0)) = 50000"
  "points (snd (setup_na ideal_env stabilized na0)) = 1"
  "avg (snd (setup_na ideal_env stabilized na0)) = 1"
  "amplitude_stored (snd (setup_na ideal_env stabilized na0)) = 1 / 100"
  "sleeptimes (snd (setup_na ideal_env stabilized na0)) = 1 / 2"
  "stabilize (snd (setup_na ideal_env stabilized na0)) = Target (1 / 10)"
  "maxamplitude (snd (setup_na ideal_env stabilized na0)) = 1"
  by (simp_all add: setup_na_config merge_fields stabilized_def no_options_def na0_fields)

lemmas step_unfold =
  values_next_def values_body_def handler_def finalizer_def log_info_def
  prepare_for_next_point_def lookup_y_def iq_set_amplitude_def iq_set_frequency_def

text \<open>
  C2. The code after \<^verbatim>\<open>setup(points=1, stabilize=0.1)\<close>, which returns:
  \<^verbatim>\<open>prepare_for_next_point\<close> raises NameError and leaves the analyzer as it was, so
  the first request to the generator raises NameError. No amplitude is computed from the
  target and the response.
\<close>

theorem stabilized_prepare_raises_name_error:
  "fst (setup_na ideal_env stabilized na0) = Inr ()
   \<and> stabilize (snd (setup_na ideal_env stabilized na0)) = Target (1 / 10)
   \<and> prepare_for_next_point ideal_env 1 (snd (setup_na ideal_env stabilized na0))
       = (Inl NameError, snd (setup_na ideal_env stabilized na0))
   \<and> fst (values_next ideal_env Created (snd (setup_na ideal_env stabilized na0)))
       = Raised NameError"
proof -
  have "fst (values_next ideal_env Created (snd (setup_na ideal_env stabilized na0)))
       = Raised NameError"
    by (simp add: step_unfold get_unfold stabilized_armed stabilized_config host0_def
          ideal_env_fields)
  then show ?thesis
    by (simp add: stabilized_armed stabilized_config prepare_stabilized[OF stabilized_config(7)])
qed


lemma negative_drive_armed:
  "fst (setup_na ideal_env negative_drive na0) = Inr ()"
  "x_axis (snd (setup_na ideal_env negative_drive na0)) = Some [Finite 200, Finite 50000]"
  "current_point (snd (setup_na ideal_env negative_drive na0)) = Some 0"
  "iq_bandwidth (iq (snd (setup_na ideal_env negative_drive na0))) = [200, 200]"
  "time_last_point (snd (setup_na ideal_env negative_drive na0)) = Some 0"
  "rescale (snd (setup_na ideal_env negative_drive na0)) = Some (2 powi (- 24) * 4)"
  "iq_frequency (iq (snd (setup_na ideal_env negative_drive na0))) = 200"
  "world (snd (setup_na ideal_env negative_drive na0)) = host0\<lparr>clock_reads := 1\<rparr>"
  using setup_na0[of negative_drive "Finite 200" "[Finite 50000]"]
  by (simp_all add: negative_drive_def no_options_def linspace_two ideal_env_fields)

lemma negative_drive_config:
  "start (snd (setup_na ideal_env negative_drive na0)) = 200"
  "stop (snd (setup_na ideal_env negative_drive na0)) = 50000"
  "points (snd (setup_na ideal_env negative_drive na0)) = 2"
  "avg (snd (setup_na ideal_env negative_drive na0)) = 1"
  "amplitude_stored (snd (setup_na ideal_env negative_drive na0)) = - 2"
  "sleeptimes (snd (setup_na ideal_env negative_drive na0)) = 1 / 2"
  "stabilize (snd (setup_na ideal_env negative_drive na0)) = Off"
  "maxamplitude (snd (setup_na ideal_env negative_drive na0)) = 1"
  by (simp_all add: setup_na_config merge_fields negative_drive_def no_options_def na0_fields
        ideal_env_fields)

text \<open>
  C6. The code after \<^verbatim>\<open>setup(points=2, amplitude=-2)\<close> with \<^verbatim>\<open>maxamplitude\<close> 1:
  \<^verbatim>\<open>setup\<close> returns with the demodulator's amplitude at 1; the first request to the
  generator yields a point and leaves the demodulator's amplitude at -2, outside the
  interval from 0 to \<^verbatim>\<open>maxamplitude\<close>.
\<close>

theorem negative_amplitude_escapes_saturation:
  "fst (setup_na ideal_env negative_drive na0) = Inr ()
   \<and> maxamplitude (snd (setup_na ideal_env negative_drive na0)) = 1
   \<and> iq_amplitude (iq (snd (setup_na ideal_env negative_drive na0))) = 1
   \<and> fst (snd (values_next ideal_env Created (snd (setup_na ideal_env negative_drive na0))))
       = Suspended
   \<and> iq_amplitude (iq (snd (snd (values_next ideal_env Created
         (snd (setup_na ideal_env negative_drive na0)))))) = - 2"
proof -
  have step: "fst (snd (values_next ideal_env Created (snd (setup_na ideal_env negative_drive na0))))
       = Suspended"
    "iq_amplitude (iq (snd (snd (values_next ideal_env Created
         (snd (setup_na ideal_env negative_drive na0)))))) = - 2"
    by (simp_all add: step_unfold get_unfold negative_drive_armed negative_drive_config host0_def
          ideal_env_fields)
  have "iq_amplitude (iq (snd (setup_na ideal_env negative_drive na0))) =
           (if \<bar>case opt_amplitude negative_drive of None \<Rightarrow> 1 / 100 | Some v \<Rightarrow> v\<bar>
                 > \<bar>case opt_maxamplitude negative_drive of None \<Rightarrow> 1 | Some v \<Rightarrow> v\<bar>
            then \<bar>case opt_maxamplitude negative_drive of None \<Rightarrow> 1 | Some v \<Rightarrow> v\<bar>
            else \<bar>case opt_amplitude negative_drive of None \<Rightarrow> 1 / 100 | Some v \<Rightarrow> v\<bar>)"
    by (rule setup_na0(9)[of negative_drive "Finite 200" "[Finite 50000]"])
      (simp_all add: negative_drive_def no_options_def linspace_two)
  then have amp: "iq_amplitude (iq (snd (setup_na ideal_env negative_drive na0))) = 1"
    by (simp add: negative_drive_def no_options_def)
  from step amp show ?thesis
    by (simp add: negative_drive_armed negative_drive_config)
qed

subsection \<open>The generator\<close>

lemma cleaned_upI:
  "iq_amplitude (iq s) = accept_amplitude e 0 \<Longrightarrow> iq_frequency (iq s) = accept_frequency e x0 \<Longrightarrow>
     iq_writes (iq s) = ws @ [SetAmplitude 0, SetFrequency x0] \<Longrightarrow> cleaned_up e x0 s"
  by (simp add: cleaned_up_def)

lemma finalizer_armed:
  assumes "x_axis s = Some (x0 # xs)" and "finalizer e s = (r, s')"
  shows "r = Inr ()" and "x_axis s' = Some (x0 # xs)" and "cleaned_up e x0 s'"
proof -
  from assms show "r = Inr ()" and "x_axis s' = Some (x0 # xs)"
    by (auto simp: finalizer_def iq_set_amplitude_def iq_set_frequency_def Let_def)
  from assms have "iq_amplitude (iq s') = accept_amplitude e 0"
    "iq_frequency (iq s') = accept_frequency e x0"
    "iq_writes (iq s') = iq_writes (iq s) @ [SetAmplitude 0, SetFrequency x0]"
    by (auto simp: finalizer_def iq_set_amplitude_def iq_set_frequency_def Let_def)
  then show "cleaned_up e x0 s'"
    by (rule cleaned_upI)
qed

lemma handler_armed:
  assumes "x_axis s = Some (x0 # xs)" and "handler e err s = (out, g', s')"
  shows "out = Raised err" and "g' = Closed" and "x_axis s' = Some (x0 # xs)"
    and "cleaned_up e x0 s'"
proof -
  obtain r s1 where fin: "finalizer e (log_info ''NA output turned off due to an exception'' s) = (r, s1)"
    by (cases "finalizer e (log_info ''NA output turned off due to an exception'' s)")
  have ax: "x_axis (log_info ''NA output turned off due to an exception'' s) = Some (x0 # xs)"
    using assms(1) by (simp add: log_info_def)
  note f = finalizer_armed[OF ax fin]
  from assms(2) fin f(1) have "out = Raised err" "g' = Closed" "s' = s1"
    by (simp_all add: handler_def Let_def)
  with f show "out = Raised err" and "g' = Closed" and "x_axis s' = Some (x0 # xs)"
    and "cleaned_up e x0 s'"
    by simp_all
qed

lemma time_call_x_axis: "time_call e s = (t, s') \<Longrightarrow> x_axis s' = x_axis s"
  by (auto simp: time_call_def Let_def)

lemma get_current_point_x_axis: "get_current_point e s = (r, s') \<Longrightarrow> x_axis s' = x_axis s"
  by (auto simp: get_unfold split: option.splits sum.splits if_splits)

lemma prepare_x_axis: "prepare_for_next_point e y s = (r, s') \<Longrightarrow> x_axis s' = x_axis s"
  by (auto simp: prepare_for_next_point_def time_call_def Let_def
        split: option.splits sum.splits if_splits stabilize_mode.splits)

text \<open>The four ways through the body, on an analyzer that has an axis.\<close>

lemma values_body_no_cursor:
  assumes "x_axis s = Some (x0 # xs)" and "current_point s = None"
    and "values_body e s = (out, g', s')"
  shows "out = Raised AttributeError" and "g' = Closed" and "cleaned_up e x0 s'"
    and "x_axis s' = Some (x0 # xs)"
proof -
  from assms(2,3) have "handler e AttributeError s = (out, g', s')"
    by (simp add: values_body_def)
  from handler_armed[OF assms(1) this]
  show "out = Raised AttributeError" and "g' = Closed" and "cleaned_up e x0 s'"
    and "x_axis s' = Some (x0 # xs)"
    by simp_all
qed

lemma values_body_exhausted:
  assumes "x_axis s = Some (x0 # xs)" and "current_point s = Some c" and "\<not> int c < points s"
    and "values_body e s = (out, g', s')"
  shows "out = StopIteration" and "g' = Closed" and "cleaned_up e x0 s'"
    and "x_axis s' = Some (x0 # xs)"
proof -
  obtain r s1 where fin: "finalizer e s = (r, s1)"
    by (cases "finalizer e s")
  note f = finalizer_armed[OF assms(1) fin]
  from assms(2,3,4) fin f(1) have "out = StopIteration" "g' = Closed" "s' = s1"
    by (simp_all add: values_body_def)
  with f show "out = StopIteration" and "g' = Closed" and "cleaned_up e x0 s'"
    and "x_axis s' = Some (x0 # xs)"
    by simp_all
qed

lemma values_body_fetch_raises:
  assumes "x_axis s = Some (x0 # xs)" and "current_point s = Some c" and "int c < points s"
    and "get_current_point e s = (Inl err, s1)"
    and "values_body e s = (out, g', s')"
  shows "out = Raised err" and "g' = Closed" and "cleaned_up e x0 s'"
    and "x_axis s' = Some (x0 # xs)"
proof -
  have ax1: "x_axis s1 = Some (x0 # xs)"
    using get_current_point_x_axis[OF assms(4)] assms(1) by simp
  from assms(2,3,4,5) have "handler e err s1 = (out, g', s')"
    by (simp add: values_body_def)
  from handler_armed[OF ax1 this]
  show "out = Raised err" and "g' = Closed" and "cleaned_up e x0 s'"
    and "x_axis s' = Some (x0 # xs)"
    by simp_all
qed

lemma values_body_fetched:
  assumes ax: "x_axis s = Some (x0 # xs)" and "current_point s = Some c" and "int c < points s"
    and get: "get_current_point e s = (Inr (x, y, a), s1)"
    and prep: "prepare_for_next_point e y (if start s1 = stop s1 then snd (time_call e s1) else s1)
                 = (r, s3)"
    and body: "values_body e s = (out, g', s')"
  shows "x_axis s' = Some (x0 # xs)"
    and "\<And>err. r = Inl err \<Longrightarrow> out = Raised err \<and> g' = Closed \<and> cleaned_up e x0 s'"
    and "\<And>u. r = Inr u \<Longrightarrow>
           out = Yield (if start s1 = stop s1 then fst (time_call e s1) else x, y, a)
           \<and> g' = Suspended \<and> s' = s3"
proof -
  define s2 where "s2 = (if start s1 = stop s1 then snd (time_call e s1) else s1)"
  define x' where "x' = (if start s1 = stop s1 then fst (time_call e s1) else x)"
  have stamp: "(if start s1 = stop s1 then time_call e s1 else (x, s1)) = (x', s2)"
    by (simp add: s2_def x'_def)
  have ax1: "x_axis s1 = Some (x0 # xs)"
    using get_current_point_x_axis[OF get] ax by simp
  have ax2: "x_axis s2 = Some (x0 # xs)"
    using ax1 time_call_x_axis[of e s1 "fst (time_call e s1)" "snd (time_call e s1)"]
    by (simp add: s2_def)
  have ax3: "x_axis s3 = Some (x0 # xs)"
    using prepare_x_axis[OF prep[folded s2_def]] ax2 by simp
  have unfolded: "values_body e s =
      (case r of Inl err \<Rightarrow> handler e err s3 | Inr u \<Rightarrow> (Yield (x', y, a), Suspended, s3))"
    using assms(2,3) get stamp prep[folded s2_def]
    by (simp add: values_body_def split: sum.splits)
  show err: "out = Raised err \<and> g' = Closed \<and> cleaned_up e x0 s'" if "r = Inl err" for err
  proof -
    from unfolded body that have "handler e err s3 = (out, g', s')"
      by simp
    from handler_armed[OF ax3 this] show ?thesis
      by simp
  qed
  show ok: "out = Yield (if start s1 = stop s1 then fst (time_call e s1) else x, y, a)
           \<and> g' = Suspended \<and> s' = s3" if "r = Inr u" for u
    using unfolded body that by (simp add: x'_def)
  show "x_axis s' = Some (x0 # xs)"
  proof (cases r)
    case (Inl err)
    from unfolded body Inl have "handler e err s3 = (out, g', s')"
      by simp
    from handler_armed(3)[OF ax3 this] show ?thesis .
  next
    case (Inr u)
    with ok ax3 show ?thesis by simp
  qed
qed

lemma values_body_armed:
  assumes ax: "x_axis s = Some (x0 # xs)" and body: "values_body e s = (out, g', s')"
  shows "x_axis s' = Some (x0 # xs)"
    and "(\<exists>v. out = Yield v \<and> g' = Suspended)
         \<or> ((out = StopIteration \<or> (\<exists>err. out = Raised err)) \<and> g' = Closed \<and> cleaned_up e x0 s')"
proof -
  have "x_axis s' = Some (x0 # xs)
      \<and> ((\<exists>v. out = Yield v \<and> g' = Suspended)
         \<or> ((out = StopIteration \<or> (\<exists>err. out = Raised err)) \<and> g' = Closed
              \<and> cleaned_up e x0 s'))"
  proof (cases "current_point s")
    case None
    from values_body_no_cursor[OF ax None body] show ?thesis by simp
  next
    case (Some c)
    show ?thesis
    proof (cases "int c < points s")
      case False
      from values_body_exhausted[OF ax Some False body] show ?thesis by simp
    next
      case True
      obtain r s1 where get: "get_current_point e s = (r, s1)"
        by (cases "get_current_point e s")
      show ?thesis
      proof (cases r)
        case (Inl err)
        from values_body_fetch_raises[OF ax Some True get[unfolded Inl] body]
        show ?thesis by simp
      next
        case (Inr v)
        obtain x y a where v: "v = (x, y, a)"
          by (cases v)
        obtain r2 s3 where
          prep: "prepare_for_next_point e y (if start s1 = stop s1 then snd (time_call e s1) else s1)
                   = (r2, s3)"
          by (cases "prepare_for_next_point e y
                (if start s1 = stop s1 then snd (time_call e s1) else s1)")
        note f = values_body_fetched[OF ax Some True get[unfolded Inr v] prep body]
        show ?thesis
        proof (cases r2)
          case (Inl err)
          with f(1) f(2)[OF Inl] show ?thesis by simp
        next
          case (Inr u)
          with f(1) f(3)[OF Inr] show ?thesis by simp
        qed
      qed
    qed
  qed
  then show "x_axis s' = Some (x0 # xs)"
    and "(\<exists>v. out = Yield v \<and> g' = Suspended)
         \<or> ((out = StopIteration \<or> (\<exists>err. out = Raised err)) \<and> g' = Closed \<and> cleaned_up e x0 s')"
    by blast+
qed

lemma values_next_live: "g \<noteq> Closed \<Longrightarrow> values_next e g s = values_body e s"
  by (cases g) (simp_all add: values_next_def)

lemma consume_Closed:
  "consume e reqs Closed s = (outs, g', s') \<Longrightarrow> g' = Closed \<and> s' = s \<and> reported outs = []"
proof (induction reqs arbitrary: outs)
  case Nil
  then show ?case by simp
next
  case (Cons req reqs)
  show ?case
  proof (cases req)
    case Next
    with Cons.prems obtain outs1 where
      "consume e reqs Closed s = (outs1, g', s')" and "outs = StopIteration # outs1"
      by (auto simp: values_next_def split: prod.splits)
    with Cons.IH[of outs1] show ?thesis by simp
  next
    case Close
    with Cons.prems have "consume e reqs Closed s = (outs, g', s')"
      by (simp add: values_close_def)
    with Cons.IH[of outs] show ?thesis by simp
  qed
qed

lemma values_close_Closed: "values_close e g s = (r, g', s') \<Longrightarrow> g' = Closed"
  by (cases g) (auto simp: values_close_def split: prod.splits sum.splits)

lemma values_close_armed:
  assumes "x_axis s = Some (x0 # xs)" and "values_close e Suspended s = (r, g', s')"
  shows "r = Inr ()" and "g' = Closed" and "cleaned_up e x0 s'"
proof -
  obtain r1 s1 where fin: "finalizer e s = (r1, s1)"
    by (cases "finalizer e s")
  note f = finalizer_armed[OF assms(1) fin]
  from assms(2) fin f(1) have "r = Inr ()" "g' = Closed" "s' = s1"
    by (simp_all add: values_close_def)
  with f show "r = Inr ()" and "g' = Closed" and "cleaned_up e x0 s'"
    by simp_all
qed

lemma consume_running:
  assumes "x_axis s = Some (x0 # xs)"
    and "consume e reqs Suspended s = (outs, Closed, s')"
  shows "cleaned_up e x0 s'"
  using assms
proof (induction reqs arbitrary: s outs)
  case Nil
  then show ?case by simp
next
  case (Cons req reqs)
  show ?case
  proof (cases req)
    case Next
    obtain out g1 s1 where step: "values_body e s = (out, g1, s1)"
      by (cases "values_body e s") auto
    with Cons.prems(2) Next obtain outs1 where
      rest: "consume e reqs g1 s1 = (outs1, Closed, s')"
      by (auto simp: values_next_def split: prod.splits)
    note inv = values_body_armed[OF Cons.prems(1) step]
    from inv(2) have "g1 = Suspended \<or> (g1 = Closed \<and> cleaned_up e x0 s1)"
      by blast
    then show ?thesis
    proof (elim disjE conjE)
      assume "g1 = Suspended"
      with rest inv(1) Cons.IH show ?thesis by blast
    next
      assume g1: "g1 = Closed" and c: "cleaned_up e x0 s1"
      with rest consume_Closed have "s' = s1" by blast
      with c show ?thesis by simp
    qed
  next
    case Close
    obtain r g1 s1 where cl: "values_close e Suspended s = (r, g1, s1)"
      by (cases "values_close e Suspended s") auto
    note c = values_close_armed[OF Cons.prems(1) cl]
    from Cons.prems(2) Close cl c(2) have rest: "consume e reqs Closed s1 = (outs, Closed, s')"
      by simp
    with consume_Closed have "s' = s1" by blast
    with c(3) show ?thesis by simp
  qed
qed

lemma consume_started:
  assumes "x_axis s = Some (x0 # xs)"
    and "consume e (Next # reqs) Created s = (outs, Closed, s')"
  shows "cleaned_up e x0 s'"
proof -
  obtain out g1 s1 where step: "values_body e s = (out, g1, s1)"
    by (cases "values_body e s") auto
  with assms(2) obtain outs1 where rest: "consume e reqs g1 s1 = (outs1, Closed, s')"
    by (auto simp: values_next_def split: prod.splits)
  note inv = values_body_armed[OF assms(1) step]
  from inv(2) have "g1 = Suspended \<or> (g1 = Closed \<and> cleaned_up e x0 s1)"
    by blast
  then show ?thesis
  proof (elim disjE conjE)
    assume "g1 = Suspended"
    with rest inv(1) consume_running show ?thesis by blast
  next
    assume g1: "g1 = Closed" and c: "cleaned_up e x0 s1"
    with rest consume_Closed have "s' = s1" by blast
    with c show ?thesis by simp
  qed
qed

lemma na1_drive: "iq_amplitude (iq na1) = 1 / 100"
  unfolding na1_def
  using setup_na0(9)[of one_point "Finite 200" "[]"]
  by (simp add: one_point_def no_options_def linspace_one)

text \<open>
  C1, as stated, fails for a generator that is abandoned before its first value is
  requested: Python does not enter the body of a generator that is closed before the
  first \<^verbatim>\<open>next()\<close>, so the \<^verbatim>\<open>finally\<close> block does not run. After
  \<^verbatim>\<open>setup(points=1)\<close> the demodulator drives with amplitude 0.01; creating the
  generator and closing it leaves the analyzer as it was, with that amplitude.
\<close>

theorem close_before_first_next_counterexample:
  "x_axis na1 = Some [Finite 200]
   \<and> consume ideal_env [Close] Created na1 = ([], Closed, na1)
   \<and> iq_amplitude (iq na1) = 1 / 100
   \<and> accept_amplitude ideal_env 0 = 0
   \<and> \<not> cleaned_up ideal_env (Finite 200) na1"
  by (simp add: na1_armed na1_drive values_close_def cleaned_up_def ideal_env_fields)

text \<open>
  C1, amended. Take an analyzer that has a frequency axis with first point \<open>x0\<close> and a
  generator on it that is not closed. A request for the next value either yields a triple
  and leaves the generator suspended, or ends in StopIteration or an exception and
  leaves the generator closed, the demodulator holding what it accepted for the
  amplitude 0 and the frequency \<open>x0\<close>, these being the last two writes it received. The
  request ends in StopIteration when all points are done, and in the exception raised
  when there is no cursor, when fetching the point raises, and when preparing the next
  point raises. Closing the suspended generator returns and cleans up in the same way.
  Hence at the end of every run that begins with a request for a value and leaves the
  generator closed, the demodulator is cleaned up; a generator closed before its first
  request is not covered.
\<close>

theorem values_finalizes_on_every_exit:
  assumes "x_axis s = Some (x0 # xs)"
  shows "(\<forall>g out g' s'. g \<noteq> Closed \<longrightarrow> values_next e g s = (out, g', s') \<longrightarrow>
            (\<exists>v. out = Yield v \<and> g' = Suspended)
            \<or> ((out = StopIteration \<or> (\<exists>err. out = Raised err)) \<and> g' = Closed
                 \<and> cleaned_up e x0 s'))
       \<and> (\<forall>g c. g \<noteq> Closed \<longrightarrow> current_point s = Some c \<longrightarrow> \<not> int c < points s \<longrightarrow>
            fst (values_next e g s) = StopIteration)
       \<and> (\<forall>g. g \<noteq> Closed \<longrightarrow> current_point s = None \<longrightarrow>
            fst (values_next e g s) = Raised AttributeError)
       \<and> (\<forall>g c err s1. g \<noteq> Closed \<longrightarrow> current_point s = Some c \<longrightarrow> int c < points s \<longrightarrow>
            get_current_point e s = (Inl err, s1) \<longrightarrow>
            fst (values_next e g s) = Raised err)
       \<and> (\<forall>g c x y a s1 err s3. g \<noteq> Closed \<longrightarrow> current_point s = Some c \<longrightarrow>
            int c < points s \<longrightarrow> get_current_point e s = (Inr (x, y, a), s1) \<longrightarrow>
            prepare_for_next_point e y (if start s1 = stop s1 then snd (time_call e s1) else s1)
              = (Inl err, s3) \<longrightarrow>
            fst (values_next e g s) = Raised err)
       \<and> (\<forall>r g' s'. values_close e Suspended s = (r, g', s') \<longrightarrow>
            r = Inr () \<and> g' = Closed \<and> cleaned_up e x0 s')
       \<and> (\<forall>reqs outs s'. consume e (Next # reqs) Created s = (outs, Closed, s') \<longrightarrow>
            cleaned_up e x0 s')"
proof (intro conjI allI impI)
  fix g out g' s'
  assume "g \<noteq> Closed" and "values_next e g s = (out, g', s')"
  then have "values_body e s = (out, g', s')"
    by (simp add: values_next_live)
  from values_body_armed(2)[OF assms this]
  show "(\<exists>v. out = Yield v \<and> g' = Suspended)
        \<or> ((out = StopIteration \<or> (\<exists>err. out = Raised err)) \<and> g' = Closed \<and> cleaned_up e x0 s')" .
next
  fix g c
  assume "g \<noteq> Closed" and c: "current_point s = Some c" "\<not> int c < points s"
  then have "values_next e g s = values_body e s"
    by (simp add: values_next_live)
  with values_body_exhausted(1)[OF assms c, of e] show "fst (values_next e g s) = StopIteration"
    by (cases "values_body e s") simp
next
  fix g
  assume "g \<noteq> Closed" and c: "current_point s = None"
  then have "values_next e g s = values_body e s"
    by (simp add: values_next_live)
  with values_body_no_cursor(1)[OF assms c, of e]
  show "fst (values_next e g s) = Raised AttributeError"
    by (cases "values_body e s") simp
next
  fix g c err s1
  assume "g \<noteq> Closed" and c: "current_point s = Some c" "int c < points s"
    and get: "get_current_point e s = (Inl err, s1)"
  then have "values_next e g s = values_body e s"
    by (simp add: values_next_live)
  with values_body_fetch_raises(1)[OF assms c get] show "fst (values_next e g s) = Raised err"
    by (cases "values_body e s") simp
next
  fix g c x y a s1 err s3
  assume "g \<noteq> Closed" and c: "current_point s = Some c" "int c < points s"
    and get: "get_current_point e s = (Inr (x, y, a), s1)"
    and prep: "prepare_for_next_point e y (if start s1 = stop s1 then snd (time_call e s1) else s1)
                 = (Inl err, s3)"
  then have "values_next e g s = values_body e s"
    by (simp add: values_next_live)
  with values_body_fetched(2)[OF assms c get prep, of _ _ _ err]
  show "fst (values_next e g s) = Raised err"
    by (cases "values_body e s") simp
next
  fix r g' s'
  assume "values_close e Suspended s = (r, g', s')"
  from values_close_armed[OF assms this]
  show "r = Inr ()" and "g' = Closed" and "cleaned_up e x0 s'" .
next
  fix reqs outs s'
  assume "consume e (Next # reqs) Created s = (outs, Closed, s')"
  from consume_started[OF assms this] show "cleaned_up e x0 s'" .
qed

lemma consume_collapse:
  "fst (snd (consume e reqs g s)) = Closed \<Longrightarrow>
     consume e reqs g s = (fst (consume e reqs g s), Closed, snd (snd (consume e reqs g s)))"
  by (simp add: prod_eq_iff)

theorem values_finalizes_on_every_exit_witness:
  "iq_amplitude (iq (snd (snd (consume ideal_env [Next, Next] Created na1)))) = 0
   \<and> iq_frequency (iq (snd (snd (consume ideal_env [Next, Next] Created na1)))) = 200
   \<and> iq_amplitude (iq (snd (snd (consume ideal_env [Next, Close] Created na1)))) = 0
   \<and> iq_frequency (iq (snd (snd (consume ideal_env [Next, Close] Created na1)))) = 200
   \<and> fst (consume ideal_env [Next] Created (snd (setup_na ideal_env stabilized na0)))
       = [Raised NameError]
   \<and> iq_amplitude (iq (snd (snd (consume ideal_env [Next] Created
         (snd (setup_na ideal_env stabilized na0)))))) = 0
   \<and> iq_frequency (iq (snd (snd (consume ideal_env [Next] Created
         (snd (setup_na ideal_env stabilized na0)))))) = 200"
proof -
  have done1: "fst (snd (consume ideal_env [Next, Next] Created na1)) = Closed"
    by (simp add: step_unfold get_unfold na1_armed na1_config host0_def ideal_env_fields)
  have done2: "fst (snd (consume ideal_env [Next, Close] Created na1)) = Closed"
    by (auto split: prod.splits dest: values_close_Closed)
  have done3: "fst (snd (consume ideal_env [Next] Created (snd (setup_na ideal_env stabilized na0))))
                 = Closed"
    "fst (consume ideal_env [Next] Created (snd (setup_na ideal_env stabilized na0)))
       = [Raised NameError]"
    by (simp_all add: step_unfold get_unfold stabilized_armed stabilized_config host0_def
          ideal_env_fields)
  have run: "\<And>reqs outs s'. consume ideal_env (Next # reqs) Created na1 = (outs, Closed, s')
               \<Longrightarrow> cleaned_up ideal_env (Finite 200) s'"
    using values_finalizes_on_every_exit[OF na1_armed(2), of ideal_env] by blast
  have run3: "\<And>reqs outs s'.
      consume ideal_env (Next # reqs) Created (snd (setup_na ideal_env stabilized na0))
         = (outs, Closed, s')
      \<Longrightarrow> cleaned_up ideal_env (Finite 200) s'"
    using values_finalizes_on_every_exit[OF stabilized_armed(2), of ideal_env] by blast
  show ?thesis
    using run[OF consume_collapse[OF done1]] run[OF consume_collapse[OF done2]]
      run3[OF consume_collapse[OF done3(1)]] done3(2)
    by (simp add: cleaned_up_def ideal_env_fields)
qed

subsection \<open>Zero span\<close>


lemma time_per_point_fields:
  "iq_bandwidth (iq s') = iq_bandwidth (iq s) \<Longrightarrow> avg s' = avg s \<Longrightarrow>
     sleeptimes s' = sleeptimes s \<Longrightarrow> time_per_point s' = time_per_point s"
  by (auto simp: time_per_point_def rbw_def split: list.splits)

lemma time_per_point_world [simp]: "time_per_point (s\<lparr>world := w\<rparr>) = time_per_point s"
  by (rule time_per_point_fields) simp_all














end
